theory Spec2Isabelle
  imports Complex_Main "HOL-Library.Word"
begin

unbundle bit_operations_syntax

section \<open>Data model of \<^verbatim>\<open>ai_engine.h\<close>\<close>

text \<open>
  The C enumerations are integers: a board that arrives as a flat integer vector can hold
  any integer in a terrain, piece-type or owner field. They are modelled as \<open>int\<close> with
  the enumerators as named constants, in the order of the header.
\<close>

type_synonym TerrainType = int
type_synonym Player = int
type_synonym PieceType = int
type_synonym GameStatus = int
type_synonym HashFlag = int

abbreviation (input) TERRAIN_LAND :: TerrainType where "TERRAIN_LAND \<equiv> 0"
abbreviation (input) TERRAIN_WATER :: TerrainType where "TERRAIN_WATER \<equiv> 1"
abbreviation (input) TERRAIN_TRAP :: TerrainType where "TERRAIN_TRAP \<equiv> 2"
abbreviation (input) TERRAIN_PLAYER0_DEN :: TerrainType where "TERRAIN_PLAYER0_DEN \<equiv> 3"
abbreviation (input) TERRAIN_PLAYER1_DEN :: TerrainType where "TERRAIN_PLAYER1_DEN \<equiv> 4"

abbreviation (input) PLAYER_NONE :: Player where "PLAYER_NONE \<equiv> - 1"
abbreviation (input) PLAYER0 :: Player where "PLAYER0 \<equiv> 0"
abbreviation (input) PLAYER1 :: Player where "PLAYER1 \<equiv> 1"

abbreviation (input) PIECE_TYPE_RAT :: PieceType where "PIECE_TYPE_RAT \<equiv> 0"
abbreviation (input) PIECE_TYPE_CAT :: PieceType where "PIECE_TYPE_CAT \<equiv> 1"
abbreviation (input) PIECE_TYPE_DOG :: PieceType where "PIECE_TYPE_DOG \<equiv> 2"
abbreviation (input) PIECE_TYPE_WOLF :: PieceType where "PIECE_TYPE_WOLF \<equiv> 3"
abbreviation (input) PIECE_TYPE_LEOPARD :: PieceType where "PIECE_TYPE_LEOPARD \<equiv> 4"
abbreviation (input) PIECE_TYPE_TIGER :: PieceType where "PIECE_TYPE_TIGER \<equiv> 5"
abbreviation (input) PIECE_TYPE_LION :: PieceType where "PIECE_TYPE_LION \<equiv> 6"
abbreviation (input) PIECE_TYPE_ELEPHANT :: PieceType where "PIECE_TYPE_ELEPHANT \<equiv> 7"
abbreviation (input) NUM_PIECE_TYPES :: PieceType where "NUM_PIECE_TYPES \<equiv> 8"
abbreviation (input) NO_PIECE :: PieceType where "NO_PIECE \<equiv> 9"

abbreviation (input) GAME_STATUS_INIT :: GameStatus where "GAME_STATUS_INIT \<equiv> 0"
abbreviation (input) GAME_STATUS_ONGOING :: GameStatus where "GAME_STATUS_ONGOING \<equiv> 1"
abbreviation (input) GAME_STATUS_PLAYER0_WINS :: GameStatus where "GAME_STATUS_PLAYER0_WINS \<equiv> 2"
abbreviation (input) GAME_STATUS_PLAYER1_WINS :: GameStatus where "GAME_STATUS_PLAYER1_WINS \<equiv> 3"
abbreviation (input) GAME_STATUS_DRAW :: GameStatus where "GAME_STATUS_DRAW \<equiv> 4"


abbreviation (input) BOARD_ROWS :: int where "BOARD_ROWS \<equiv> 9"
abbreviation (input) BOARD_COLS :: int where "BOARD_COLS \<equiv> 7"
abbreviation (input) WIN_SCORE :: int where "WIN_SCORE \<equiv> 20000"
abbreviation (input) LOSE_SCORE :: int where "LOSE_SCORE \<equiv> - 20000"
abbreviation (input) DRAW_SCORE :: int where "DRAW_SCORE \<equiv> 0"

record Piece =
  ptype :: PieceType
  player :: Player
  rank :: int
  pvalue :: int

record Square =
  terrain :: TerrainType
  piece :: Piece

text \<open>
  \<^verbatim>\<open>Square squares[BOARD_ROWS][BOARD_COLS]\<close>: the array is a function of the pair
  (row, column). The code reads and writes it at rows 0..8 and columns 0..6 only.
\<close>

record Board =
  squares :: "int \<times> int \<Rightarrow> Square"

record Move =
  from_row :: int
  from_col :: int
  to_row :: int
  to_col :: int
  piece_type :: PieceType
  captured_piece_type :: PieceType
  order_score :: int

definition mk_piece :: "PieceType \<Rightarrow> Player \<Rightarrow> int \<Rightarrow> int \<Rightarrow> Piece" where
  "mk_piece t p rk v = \<lparr>ptype = t, player = p, rank = rk, pvalue = v\<rparr>"

definition PIECE_INFO :: "Piece list" where
  "PIECE_INFO =
     [mk_piece PIECE_TYPE_RAT PLAYER_NONE 1 200, mk_piece PIECE_TYPE_CAT PLAYER_NONE 2 200,
      mk_piece PIECE_TYPE_DOG PLAYER_NONE 3 300, mk_piece PIECE_TYPE_WOLF PLAYER_NONE 4 400,
      mk_piece PIECE_TYPE_LEOPARD PLAYER_NONE 5 500, mk_piece PIECE_TYPE_TIGER PLAYER_NONE 6 700,
      mk_piece PIECE_TYPE_LION PLAYER_NONE 7 800, mk_piece PIECE_TYPE_ELEPHANT PLAYER_NONE 8 650]"

definition get_opponent :: "Player \<Rightarrow> Player" where
  "get_opponent p =
     (if p = PLAYER0 then PLAYER1 else if p = PLAYER1 then PLAYER0 else PLAYER_NONE)"


section \<open>Rules\<close>

definition is_valid_move_coords :: "int \<Rightarrow> int \<Rightarrow> bool" where
  "is_valid_move_coords r c \<longleftrightarrow> r \<ge> 0 \<and> r < BOARD_ROWS \<and> c \<ge> 0 \<and> c < BOARD_COLS"

definition rules_is_river :: "int \<Rightarrow> int \<Rightarrow> bool" where
  "rules_is_river r c \<longleftrightarrow> r \<ge> 3 \<and> r \<le> 5 \<and> (c = 1 \<or> c = 2 \<or> c = 4 \<or> c = 5)"

text \<open>
  The pointer arguments of the C functions are never null at a call of this program, so
  a piece is passed by value and the null tests are left out.
\<close>

definition rules_get_effective_rank :: "Piece \<Rightarrow> int \<Rightarrow> int \<Rightarrow> Board \<Rightarrow> int" where
  "rules_get_effective_rank pc r c board =
     (if ptype pc = NO_PIECE then 0
      else
        let trn = terrain (squares board (r, c));
            is_player0_trap = ((r = 8 \<and> (c = 2 \<or> c = 4)) \<or> (r = 7 \<and> c = 3));
            is_player1_trap = ((r = 0 \<and> (c = 2 \<or> c = 4)) \<or> (r = 1 \<and> c = 3))
        in if trn = TERRAIN_TRAP \<and>
              ((player pc = PLAYER0 \<and> is_player1_trap) \<or> (player pc = PLAYER1 \<and> is_player0_trap))
           then 0
           else rank pc)"

definition rules_can_capture ::
  "Piece \<Rightarrow> Piece \<Rightarrow> int \<Rightarrow> int \<Rightarrow> int \<Rightarrow> int \<Rightarrow> Board \<Rightarrow> bool" where
  "rules_can_capture attacker defender att_r att_c def_r def_c board =
     (if ptype attacker = NO_PIECE \<or> ptype defender = NO_PIECE \<or> player attacker = player defender
      then False
      else
        let att_terrain = terrain (squares board (att_r, att_c));
            def_terrain = terrain (squares board (def_r, def_c))
        in if att_terrain = TERRAIN_WATER \<and> ptype attacker \<noteq> PIECE_TYPE_RAT then False
           else if att_terrain = TERRAIN_WATER \<and> def_terrain \<noteq> TERRAIN_WATER \<and>
                   \<not> (ptype attacker = PIECE_TYPE_RAT \<and> ptype defender = PIECE_TYPE_ELEPHANT \<and>
                      def_terrain \<noteq> TERRAIN_WATER)
           then False
           else if ptype attacker = PIECE_TYPE_RAT \<and> ptype defender = PIECE_TYPE_ELEPHANT
           then att_terrain \<noteq> TERRAIN_WATER
           else if ptype attacker = PIECE_TYPE_ELEPHANT \<and> ptype defender = PIECE_TYPE_RAT
           then False
           else rules_get_effective_rank attacker att_r att_c board
                  \<ge> rules_get_effective_rank defender def_r def_c board)"


subsection \<open>Moves of one piece\<close>

text \<open>
  One round of the loop over the four orthogonal directions of
  \<^verbatim>\<open>rules_get_valid_moves_for_piece\<close>, for the direction \<open>(d_r, d_c)\<close>: the moves
  it appends to the output array (none where the C code runs into a \<^verbatim>\<open>continue\<close>).
\<close>

definition step_moves :: "Board \<Rightarrow> int \<Rightarrow> int \<Rightarrow> bool \<Rightarrow> int \<times> int \<Rightarrow> Move list" where
  "step_moves board r c captures_only d =
     (let pc = piece (squares board (r, c));
          plr = player pc;
          pt = ptype pc;
          nr = r + fst d;
          nc = c + snd d
      in if \<not> is_valid_move_coords nr nc then []
         else
           let target_terrain = terrain (squares board (nr, nc));
               target_piece_ptr =
                 (if ptype (piece (squares board (nr, nc))) \<noteq> NO_PIECE
                  then Some (piece (squares board (nr, nc))) else None);
               captured_type = (case target_piece_ptr of Some t \<Rightarrow> ptype t | None \<Rightarrow> NO_PIECE);
               own_den_terrain = (if plr = PLAYER0 then TERRAIN_PLAYER0_DEN else TERRAIN_PLAYER1_DEN)
           in if captures_only \<and> target_piece_ptr = None then []
              else if target_terrain = own_den_terrain then []
              else if target_terrain = TERRAIN_WATER \<and> pt \<noteq> PIECE_TYPE_RAT then []
              else if (case target_piece_ptr of Some t \<Rightarrow> player t = plr | None \<Rightarrow> False) then []
              else if (case target_piece_ptr of
                         Some t \<Rightarrow> player t \<noteq> plr \<and> \<not> rules_can_capture pc t r c nr nc board
                       | None \<Rightarrow> False) then []
              else [\<lparr>from_row = r, from_col = c, to_row = nr, to_col = nc, piece_type = pt,
                     captured_piece_type = captured_type, order_score = 0\<rparr>])"

text \<open>
  The jump templates the code collects for a Lion or Tiger at \<open>(r, c)\<close>: the target row
  and column with the six entries of \<^verbatim>\<open>river_coords[j]\<close>, in the order the code adds them.
\<close>

definition jump_paths :: "int \<Rightarrow> int \<Rightarrow> PieceType \<Rightarrow> (int \<times> int \<times> int list) list" where
  "jump_paths r c pt =
     (if rules_is_river 3 c \<and> pt \<noteq> PIECE_TYPE_RAT
      then (if r = 2 then [(6, c, [3, c, 4, c, 5, c])]
            else if r = 6 then [(2, c, [5, c, 4, c, 3, c])]
            else [])
      else []) @
     (if pt = PIECE_TYPE_LION
      then (if rules_is_river r 1 \<and> rules_is_river r 2 \<and> pt \<noteq> PIECE_TYPE_RAT
            then (if c = 0 then [(r, 3, [r, 1, r, 2, - 1, - 1])]
                  else if c = 3 then [(r, 0, [r, 2, r, 1, - 1, - 1])]
                  else [])
            else []) @
           (if rules_is_river r 4 \<and> rules_is_river r 5 \<and> pt \<noteq> PIECE_TYPE_RAT
            then (if c = 3 then [(r, 6, [r, 4, r, 5, - 1, - 1])]
                  else if c = 6 then [(r, 3, [r, 5, r, 4, - 1, - 1])]
                  else [])
            else [])
      else [])"

text \<open>The loop over \<^verbatim>\<open>k_path\<close>, from \<open>k\<close> on: whether it sets \<^verbatim>\<open>path_blocked\<close>.\<close>

function path_blocked :: "Board \<Rightarrow> int list \<Rightarrow> nat \<Rightarrow> bool" where
  "path_blocked board river_coords k =
     (if k < 3 then
        (let river_r = river_coords ! (k * 2);
             river_c = river_coords ! (k * 2 + 1)
         in if river_r = - 1 \<and> river_c = - 1 then False
            else if \<not> rules_is_river river_r river_c \<or>
                    ptype (piece (squares board (river_r, river_c))) \<noteq> NO_PIECE
            then True
            else path_blocked board river_coords (k + 1))
      else False)"
  by pat_completeness auto
termination
  by (relation "measure (\<lambda>(board, river_coords, k). 3 - k)") auto

text \<open>One round of the loop over the collected jump paths.\<close>

definition jump_moves :: "Board \<Rightarrow> int \<Rightarrow> int \<Rightarrow> bool \<Rightarrow> int \<times> int \<times> int list \<Rightarrow> Move list" where
  "jump_moves board r c captures_only jp =
     (let pc = piece (squares board (r, c));
          plr = player pc;
          pt = ptype pc;
          nr = fst jp;
          nc = fst (snd jp)
      in if path_blocked board (snd (snd jp)) 0 then []
         else
           let target_terrain = terrain (squares board (nr, nc));
               target_piece_ptr =
                 (if ptype (piece (squares board (nr, nc))) \<noteq> NO_PIECE
                  then Some (piece (squares board (nr, nc))) else None);
               captured_type = (case target_piece_ptr of Some t \<Rightarrow> ptype t | None \<Rightarrow> NO_PIECE);
               own_den_terrain = (if plr = PLAYER0 then TERRAIN_PLAYER0_DEN else TERRAIN_PLAYER1_DEN)
           in if captures_only \<and> target_piece_ptr = None then []
              else if target_terrain = own_den_terrain then []
              else if target_terrain = TERRAIN_WATER then []
              else if (case target_piece_ptr of Some t \<Rightarrow> player t = plr | None \<Rightarrow> False) then []
              else if (case target_piece_ptr of
                         Some t \<Rightarrow> player t \<noteq> plr \<and> \<not> rules_can_capture pc t r c nr nc board
                       | None \<Rightarrow> False) then []
              else [\<lparr>from_row = r, from_col = c, to_row = nr, to_col = nc, piece_type = pt,
                     captured_piece_type = captured_type, order_score = 0\<rparr>])"

definition rules_get_valid_moves_for_piece :: "Board \<Rightarrow> int \<Rightarrow> int \<Rightarrow> bool \<Rightarrow> Move list" where
  "rules_get_valid_moves_for_piece board r c captures_only =
     (if ptype (piece (squares board (r, c))) = NO_PIECE then []
      else
        let pt = ptype (piece (squares board (r, c)))
        in concat (map (step_moves board r c captures_only) [(- 1, 0), (1, 0), (0, - 1), (0, 1)]) @
           (if pt = PIECE_TYPE_LION \<or> pt = PIECE_TYPE_TIGER
            then concat (map (jump_moves board r c captures_only) (jump_paths r c pt))
            else []))"

subsection \<open>All moves of a side, and the game status\<close>

text \<open>The squares in the order of the nested loops \<^verbatim>\<open>for r ... for c ...\<close>.\<close>

definition all_squares :: "(int \<times> int) list" where
  "all_squares = List.product [0..8] [0..6]"

definition generate_all_valid_moves :: "Board \<Rightarrow> Player \<Rightarrow> bool \<Rightarrow> Move list" where
  "generate_all_valid_moves board plr captures_only =
     fold (\<lambda>rc moves_array.
             if ptype (piece (squares board rc)) \<noteq> NO_PIECE \<and> player (piece (squares board rc)) = plr
             then fold (\<lambda>m ms. if int (length ms) < BOARD_ROWS * BOARD_COLS * 8 then ms @ [m] else ms)
                    (rules_get_valid_moves_for_piece board (fst rc) (snd rc) captures_only) moves_array
             else moves_array)
       all_squares []"

text \<open>The counters \<^verbatim>\<open>p0c, p1c, p0d, p1d\<close> after the loop of \<^verbatim>\<open>rules_get_game_status\<close>.\<close>

definition status_scan :: "Board \<Rightarrow> int \<times> int \<times> bool \<times> bool" where
  "status_scan board =
     fold (\<lambda>rc (p0c, p1c, p0d, p1d).
             if ptype (piece (squares board rc)) \<noteq> NO_PIECE
             then (if player (piece (squares board rc)) = PLAYER0
                   then (p0c + 1, p1c, p0d \<or> terrain (squares board rc) = TERRAIN_PLAYER1_DEN, p1d)
                   else (p0c, p1c + 1, p0d, p1d \<or> terrain (squares board rc) = TERRAIN_PLAYER0_DEN))
             else (p0c, p1c, p0d, p1d))
       all_squares (0, 0, False, False)"

definition rules_get_game_status :: "Board \<Rightarrow> GameStatus" where
  "rules_get_game_status board =
     (case status_scan board of (p0c, p1c, p0d, p1d) \<Rightarrow>
        if p0d then GAME_STATUS_PLAYER0_WINS
        else if p1d then GAME_STATUS_PLAYER1_WINS
        else if p1c = 0 \<and> p0c > 0 then GAME_STATUS_PLAYER0_WINS
        else if p0c = 0 \<and> p1c > 0 then GAME_STATUS_PLAYER1_WINS
        else if p0c = 0 \<and> p1c = 0 then GAME_STATUS_DRAW
        else GAME_STATUS_ONGOING)"

section \<open>Evaluation\<close>

text \<open>
  The heuristic terms of \<^verbatim>\<open>evaluate_board_internal\<close> are sums of single- and
  double-precision floating-point products, truncated to \<^verbatim>\<open>int\<close> at the end. Their value
  \<^verbatim>\<open>(int)(ai_s - pl_s)\<close> is a parameter \<open>heur\<close> of the model, a function of the board; the
  integer part of the function (the status tests, the piece counters \<^verbatim>\<open>p0_ct\<close> and
  \<^verbatim>\<open>p1_ct\<close> and the two tests after the loop) is modelled as written.
\<close>

definition eval_piece_counts :: "Board \<Rightarrow> int \<times> int" where
  "eval_piece_counts board =
     fold (\<lambda>rc (p0_ct, p1_ct).
             if ptype (piece (squares board rc)) \<noteq> NO_PIECE
             then (if player (piece (squares board rc)) = PLAYER0
                   then (p0_ct + 1, p1_ct) else (p0_ct, p1_ct + 1))
             else (p0_ct, p1_ct))
       all_squares (0, 0)"

definition evaluate_board_internal :: "(Board \<Rightarrow> int) \<Rightarrow> Board \<Rightarrow> int" where
  "evaluate_board_internal heur board =
     (let status = rules_get_game_status board
      in if status = GAME_STATUS_PLAYER1_WINS then WIN_SCORE
         else if status = GAME_STATUS_PLAYER0_WINS then LOSE_SCORE
         else if status = GAME_STATUS_DRAW then DRAW_SCORE
         else (case eval_piece_counts board of (p0_ct, p1_ct) \<Rightarrow>
                 if p1_ct = 0 \<and> p0_ct > 0 then LOSE_SCORE
                 else if p0_ct = 0 \<and> p1_ct > 0 then WIN_SCORE
                 else heur board))"


section \<open>Engine state and host\<close>

record TTEntry =
  tt_hash_key :: "64 word"
  tt_score :: int
  tt_depth :: int
  tt_flag :: HashFlag
  tt_best_move :: Move
  tt_best_move_valid :: bool

text \<open>
  The global variables of \<^verbatim>\<open>ai_engine.c\<close>, under their names, each array as a function
  of its index (of the tuple of its indices for \<^verbatim>\<open>zobrist_table\<close>). Two more fields make
  the sharing explicit: \<open>path_hashes\<close> is the local array \<^verbatim>\<open>path_hashes_main\<close> of the
  driver, which every call of \<^verbatim>\<open>alpha_beta\<close> receives by pointer and writes to, and
  \<open>clock_reads\<close> counts the calls of \<^verbatim>\<open>emscripten_get_now\<close> made so far.
\<close>

record Engine =
  zobrist_table :: "PieceType \<times> Player \<times> int \<times> int \<Rightarrow> 64 word"
  zobrist_player1_to_move :: "64 word"
  zobrist_initialized :: bool
  lcg_rand_state :: "64 word"
  ai_run_counter :: "64 word"
  killer_moves :: "int \<times> nat \<Rightarrow> Move"
  killer_moves_valid :: "int \<times> nat \<Rightarrow> bool"
  transposition_table :: "int \<Rightarrow> TTEntry"
  history_heuristic :: "int \<Rightarrow> int"
  start_search_time_ms :: real
  current_time_limit_ms :: int
  path_hashes :: "int \<Rightarrow> 64 word"
  clock_reads :: nat



section \<open>Zobrist hashing\<close>

definition random_int64 :: "Engine \<Rightarrow> 64 word \<times> Engine" where
  "random_int64 st =
     (let s = lcg_rand_state st * 6364136223846793005 + 1442695040888963407
      in (s, st\<lparr>lcg_rand_state := s\<rparr>))"

text \<open>The index tuples in the order of the four nested loops of \<^verbatim>\<open>initialize_zobrist\<close>.\<close>

definition zobrist_indices :: "(PieceType \<times> Player \<times> int \<times> int) list" where
  "zobrist_indices = List.product [0..7] (List.product [0..1] (List.product [0..8] [0..6]))"

definition initialize_zobrist :: "Engine \<Rightarrow> Engine" where
  "initialize_zobrist st =
     (if zobrist_initialized st then st
      else
        let st1 = fold (\<lambda>ix s. case random_int64 s of (v, s') \<Rightarrow>
                          s'\<lparr>zobrist_table := (zobrist_table s')(ix := v)\<rparr>)
                    zobrist_indices st
        in case random_int64 st1 of (v, st2) \<Rightarrow>
             st2\<lparr>zobrist_player1_to_move := v, zobrist_initialized := True\<rparr>)"

definition compute_zobrist_key_full :: "Engine \<Rightarrow> Board \<Rightarrow> Player \<Rightarrow> 64 word \<times> Engine" where
  "compute_zobrist_key_full st0 board player_to_move =
     (let st = (if \<not> zobrist_initialized st0 then initialize_zobrist st0 else st0);
          key = fold (\<lambda>rc key.
                        if ptype (piece (squares board rc)) \<noteq> NO_PIECE
                        then (let pc = piece (squares board rc)
                              in key XOR zobrist_table st (ptype pc, player pc, fst rc, snd rc))
                        else key)
                  all_squares 0
      in (if player_to_move = PLAYER1 then key XOR zobrist_player1_to_move st else key, st))"

section \<open>Search\<close>

text \<open>
  \<^verbatim>\<open>simulate_move_and_update_hash\<close> writes the board after the move to \<^verbatim>\<open>*next_board\<close>
  and the updated hash to \<^verbatim>\<open>*current_hash_ptr\<close>; the model returns the two. The Zobrist
  keys are read from the engine state.
\<close>

definition simulate_move_and_update_hash ::
  "Engine \<Rightarrow> Board \<Rightarrow> Move \<Rightarrow> PieceType \<Rightarrow> Player \<Rightarrow> 64 word \<Rightarrow> Board \<times> 64 word" where
  "simulate_move_and_update_hash st current_board move moved_piece_original_type plr current_hash =
     (let next_board0 = current_board;
          hash0 = current_hash;
          hash1 = hash0 XOR zobrist_table st
                    (moved_piece_original_type, plr, from_row move, from_col move);
          hash2 = (if captured_piece_type move \<noteq> NO_PIECE
                   then (let captured_player = get_opponent plr
                         in hash1 XOR zobrist_table st
                              (captured_piece_type move, captured_player, to_row move, to_col move))
                   else hash1);
          moving_piece_data =
            \<lparr>ptype = moved_piece_original_type, player = plr,
             rank = rank (PIECE_INFO ! nat moved_piece_original_type),
             pvalue = pvalue (PIECE_INFO ! nat moved_piece_original_type)\<rparr>;
          next_board1 = next_board0\<lparr>squares := (squares next_board0)
            ((to_row move, to_col move) :=
               (squares next_board0 (to_row move, to_col move))\<lparr>piece := moving_piece_data\<rparr>)\<rparr>;
          next_board2 = next_board1\<lparr>squares := (squares next_board1)
            ((from_row move, from_col move) :=
               (squares next_board1 (from_row move, from_col move))
                 \<lparr>piece := (piece (squares next_board1 (from_row move, from_col move)))
                    \<lparr>ptype := NO_PIECE\<rparr>\<rparr>)\<rparr>;
          hash3 = hash2 XOR zobrist_table st
                    (moved_piece_original_type, plr, to_row move, to_col move);
          hash4 = hash3 XOR zobrist_player1_to_move st
      in (next_board2, hash4))"

subsection \<open>Killer moves and move ordering\<close>







subsection \<open>Quiescence search\<close>


subsection \<open>Alpha-beta\<close>










section \<open>Exported functions\<close>


text \<open>
  \<^verbatim>\<open>deserialize_board\<close> reads the flat vector (a function of the index) from index 2 on,
  three integers for each square, and writes the squares of rows below \<open>flat_data 0\<close> and
  columns below \<open>flat_data 1\<close> into the board it is given. \<^verbatim>\<open>PieceType\<close> has no negative
  enumerator, so the compiler of this program (clang, for WebAssembly) compares it as an
  unsigned integer: a negative piece type is not below \<^verbatim>\<open>NUM_PIECE_TYPES\<close>.
\<close>

definition deserialize_board :: "(nat \<Rightarrow> int) \<Rightarrow> Board \<Rightarrow> Board" where
  "deserialize_board flat_data board0 =
     (let rows = flat_data 0;
          cols = flat_data 1
      in snd (fold (\<lambda>rc (k, board).
                      let sq0 = squares board rc;
                          pt = flat_data (k + 1);
                          p = flat_data (k + 2);
                          sq1 = sq0\<lparr>terrain := flat_data k\<rparr>;
                          sq2 = (if pt \<noteq> NO_PIECE \<and> 0 \<le> pt \<and> pt < NUM_PIECE_TYPES
                                 then sq1\<lparr>piece := \<lparr>ptype = pt, player = p,
                                                     rank = rank (PIECE_INFO ! nat pt),
                                                     pvalue = pvalue (PIECE_INFO ! nat pt)\<rparr>\<rparr>
                                 else sq1\<lparr>piece := (piece sq1)\<lparr>ptype := NO_PIECE\<rparr>\<rparr>)
                      in (k + 3, board\<lparr>squares := (squares board)(rc := sq2)\<rparr>))
                 (List.product [0 .. rows - 1] [0 .. cols - 1]) (2, board0)))"





section \<open>Test positions\<close>

text \<open>
  The positions used to evaluate the functions at concrete inputs are built on the standard
  terrain of the game: the dens at (8,3) and (0,3), the traps around them, the two rivers.
  \<open>place\<close> puts a piece with its canonical rank and value on a square, as
  \<^verbatim>\<open>deserialize_board\<close> does.
\<close>

definition standard_terrain :: "int \<times> int \<Rightarrow> TerrainType" where
  "standard_terrain rc =
     (if rc = (8, 3) then TERRAIN_PLAYER0_DEN
      else if rc = (0, 3) then TERRAIN_PLAYER1_DEN
      else if rc \<in> {(8, 2), (8, 4), (7, 3), (0, 2), (0, 4), (1, 3)} then TERRAIN_TRAP
      else if rules_is_river (fst rc) (snd rc) then TERRAIN_WATER
      else TERRAIN_LAND)"

definition empty_board :: Board where
  "empty_board =
     \<lparr>squares = (\<lambda>rc. \<lparr>terrain = standard_terrain rc, piece = mk_piece NO_PIECE PLAYER_NONE 0 0\<rparr>)\<rparr>"

definition canonical_piece :: "PieceType \<Rightarrow> Player \<Rightarrow> Piece" where
  "canonical_piece pt p = mk_piece pt p (rank (PIECE_INFO ! nat pt)) (pvalue (PIECE_INFO ! nat pt))"

definition place :: "PieceType \<Rightarrow> Player \<Rightarrow> int \<times> int \<Rightarrow> Board \<Rightarrow> Board" where
  "place pt p rc b =
     b\<lparr>squares := (squares b)(rc := (squares b rc)\<lparr>piece := canonical_piece pt p\<rparr>)\<rparr>"

definition mk_move :: "int \<Rightarrow> int \<Rightarrow> int \<Rightarrow> int \<Rightarrow> PieceType \<Rightarrow> PieceType \<Rightarrow> Move" where
  "mk_move fr fc tr tc pt cap =
     \<lparr>from_row = fr, from_col = fc, to_row = tr, to_col = tc, piece_type = pt,
      captured_piece_type = cap, order_score = 0\<rparr>"

definition no_move :: Move where
  "no_move = mk_move 0 0 0 0 0 0"

text \<open>
  An engine state whose Zobrist keys are initialised (to keys that are simple to evaluate),
  with an empty transposition table, no killer moves and a zero history table.
\<close>

definition test_engine :: Engine where
  "test_engine =
     \<lparr>zobrist_table =
        (\<lambda>(pt, p, r, c). word_of_int ((((pt * 2 + p) * 9 + r) * 7 + c) * 1000003 + 17)),
      zobrist_player1_to_move = 987654321, zobrist_initialized = True,
      lcg_rand_state = 0, ai_run_counter = 0,
      killer_moves = (\<lambda>ix. no_move), killer_moves_valid = (\<lambda>ix. False),
      transposition_table = (\<lambda>i. \<lparr>tt_hash_key = 0, tt_score = 0, tt_depth = - 1, tt_flag = 0,
         tt_best_move = no_move, tt_best_move_valid = False\<rparr>),
      history_heuristic = (\<lambda>i. 0), start_search_time_ms = 0, current_time_limit_ms = 1000,
      path_hashes = (\<lambda>i. 0), clock_reads = 0\<rparr>"

text \<open>
  A Player1 Lion at (2,1) facing a Player0 Dog at (6,1) across the river, with a Player0
  Rat at (7,0); and the same position with a Rat in the river at (4,1).
\<close>

definition jump_board :: Board where
  "jump_board = place PIECE_TYPE_LION PLAYER1 (2, 1) (place PIECE_TYPE_DOG PLAYER0 (6, 1)
                  (place PIECE_TYPE_RAT PLAYER0 (7, 0) empty_board))"

definition blocked_board :: Board where
  "blocked_board = place PIECE_TYPE_RAT PLAYER0 (4, 1) jump_board"

definition test_line :: "Move list" where
  "test_line =
     [mk_move 2 1 6 1 PIECE_TYPE_LION PIECE_TYPE_DOG, mk_move 7 0 6 0 PIECE_TYPE_RAT NO_PIECE]"

section \<open>Notions used to state the properties\<close>

text \<open>
  What every generated move records about the board it was generated on: it starts at
  \<open>(r, c)\<close>, ends on another square of the board, names the type of the piece at its
  origin and of the piece at its destination (\<open>NO_PIECE\<close> for an empty one), and a piece
  at the destination belongs to the other side.
\<close>

definition move_fits :: "Board \<Rightarrow> int \<Rightarrow> int \<Rightarrow> Move \<Rightarrow> bool" where
  "move_fits board r c m \<longleftrightarrow>
     from_row m = r \<and> from_col m = c \<and>
     is_valid_move_coords (to_row m) (to_col m) \<and>
     (to_row m, to_col m) \<noteq> (r, c) \<and>
     piece_type m = ptype (piece (squares board (r, c))) \<and>
     captured_piece_type m = ptype (piece (squares board (to_row m, to_col m))) \<and>
     (ptype (piece (squares board (to_row m, to_col m))) \<noteq> NO_PIECE \<longrightarrow>
        player (piece (squares board (to_row m, to_col m))) \<noteq> player (piece (squares board (r, c))))"

text \<open>The number of pieces on the 9 x 7 board.\<close>

definition count_pieces :: "Board \<Rightarrow> nat" where
  "count_pieces board = length (filter (\<lambda>rc. ptype (piece (squares board rc)) \<noteq> NO_PIECE) all_squares)"

text \<open>
  Every piece on the board belongs to Player0 or Player1: the owners for which
  \<^verbatim>\<open>zobrist_table[type][player]\<close> has an entry.
\<close>

definition pieces_owned :: "Board \<Rightarrow> bool" where
  "pieces_owned board \<longleftrightarrow>
     (\<forall>rc \<in> set all_squares. ptype (piece (squares board rc)) \<noteq> NO_PIECE \<longrightarrow>
        player (piece (squares board rc)) = PLAYER0 \<or> player (piece (squares board rc)) = PLAYER1)"

text \<open>
  A line of play: each move must be one that \<open>generate_all_valid_moves\<close> produces for the
  side to move; it is applied with \<open>simulate_move_and_update_hash\<close> as the search does,
  and the turn passes to the opponent.
\<close>

fun play_line :: "Engine \<Rightarrow> Board \<Rightarrow> Player \<Rightarrow> 64 word \<Rightarrow> Move list \<Rightarrow> (Board \<times> Player \<times> 64 word) option" where
  "play_line st board plr h [] = Some (board, plr, h)"
| "play_line st board plr h (m # ms) =
     (if m \<in> set (generate_all_valid_moves board plr False)
      then (case simulate_move_and_update_hash st board m (piece_type m) plr h of
              (board', h') \<Rightarrow> play_line st board' (get_opponent plr) h' ms)
      else None)"

text \<open>The key one square contributes to the full hash.\<close>

definition square_key :: "Engine \<Rightarrow> Board \<Rightarrow> int \<times> int \<Rightarrow> 64 word" where
  "square_key st board rc =
     (if ptype (piece (squares board rc)) \<noteq> NO_PIECE
      then zobrist_table st (ptype (piece (squares board rc)), player (piece (squares board rc)), fst rc, snd rc)
      else 0)"

text \<open>
  A river jump is an emitted move that is not a step to an orthogonal neighbour; the squares
  strictly between its origin and its destination are the river cells it crosses.
\<close>

definition is_river_jump :: "Move \<Rightarrow> bool" where
  "is_river_jump m \<longleftrightarrow> \<bar>to_row m - from_row m\<bar> + \<bar>to_col m - from_col m\<bar> \<noteq> 1"

definition strictly_between :: "Move \<Rightarrow> int \<times> int \<Rightarrow> bool" where
  "strictly_between m rc \<longleftrightarrow>
     (from_col m = to_col m \<and> snd rc = from_col m \<and>
        min (from_row m) (to_row m) < fst rc \<and> fst rc < max (from_row m) (to_row m)) \<or>
     (from_row m = to_row m \<and> fst rc = from_row m \<and>
        min (from_col m) (to_col m) < snd rc \<and> snd rc < max (from_col m) (to_col m))"

text \<open>
  The landing rules that the loop over the four orthogonal directions applies to the
  square \<open>(nr, nc)\<close> for the piece at \<open>(r, c)\<close>, and the move it emits when they hold
  (lemma \<open>step_moves_landing\<close> below).
\<close>

definition landing_allowed :: "Board \<Rightarrow> int \<Rightarrow> int \<Rightarrow> bool \<Rightarrow> int \<Rightarrow> int \<Rightarrow> bool" where
  "landing_allowed board r c captures_only nr nc \<longleftrightarrow>
     (let pc = piece (squares board (r, c));
          target = piece (squares board (nr, nc));
          occupied = (ptype target \<noteq> NO_PIECE)
      in \<not> (captures_only \<and> \<not> occupied) \<and>
         terrain (squares board (nr, nc)) \<noteq>
           (if player pc = PLAYER0 then TERRAIN_PLAYER0_DEN else TERRAIN_PLAYER1_DEN) \<and>
         \<not> (terrain (squares board (nr, nc)) = TERRAIN_WATER \<and> ptype pc \<noteq> PIECE_TYPE_RAT) \<and>
         \<not> (occupied \<and> player target = player pc) \<and>
         \<not> (occupied \<and> player target \<noteq> player pc \<and> \<not> rules_can_capture pc target r c nr nc board))"

definition emitted_move :: "Board \<Rightarrow> int \<Rightarrow> int \<Rightarrow> int \<Rightarrow> int \<Rightarrow> Move" where
  "emitted_move board r c nr nc =
     \<lparr>from_row = r, from_col = c, to_row = nr, to_col = nc,
      piece_type = ptype (piece (squares board (r, c))),
      captured_piece_type = ptype (piece (squares board (nr, nc))), order_score = 0\<rparr>"

section \<open>The blocks of the search\<close>










section \<open>Notions for the driver\<close>






text \<open>
  What \<^verbatim>\<open>deserialize_board\<close> makes of one square from the three integers at index \<open>k\<close>,
  and the position of an element in a list.
\<close>

definition read_square :: "(nat \<Rightarrow> int) \<Rightarrow> nat \<Rightarrow> Square \<Rightarrow> Square" where
  "read_square flat_data k sq0 =
     (let pt = flat_data (k + 1);
          p = flat_data (k + 2);
          sq1 = sq0\<lparr>terrain := flat_data k\<rparr>
      in if pt \<noteq> NO_PIECE \<and> 0 \<le> pt \<and> pt < NUM_PIECE_TYPES
         then sq1\<lparr>piece := \<lparr>ptype = pt, player = p, rank = rank (PIECE_INFO ! nat pt),
                             pvalue = pvalue (PIECE_INFO ! nat pt)\<rparr>\<rparr>
         else sq1\<lparr>piece := (piece sq1)\<lparr>ptype := NO_PIECE\<rparr>\<rparr>)"

fun pos :: "'a list \<Rightarrow> 'a \<Rightarrow> nat" where
  "pos [] x = 0"
| "pos (y # ys) x = (if x = y then 0 else Suc (pos ys x))"


section \<open>Positions and engine states for the search\<close>











section \<open>Capture rules\<close>

text \<open>
  C3. The claim reads: a Rat standing on Water may capture an opposing Elephant standing
  on a non-Water square. The code refuses it: the first water test lets the pair through,
  and the Rat-against-Elephant case that follows returns whether the attacker is off the
  water. At a Rat on the river square (3,1) and an Elephant on the land square (3,0) the
  function returns false.
\<close>

theorem rat_in_water_elephant_counterexample:
  "ptype (canonical_piece PIECE_TYPE_RAT PLAYER1) = PIECE_TYPE_RAT \<and>
   ptype (canonical_piece PIECE_TYPE_ELEPHANT PLAYER0) = PIECE_TYPE_ELEPHANT \<and>
   player (canonical_piece PIECE_TYPE_RAT PLAYER1) \<noteq> player (canonical_piece PIECE_TYPE_ELEPHANT PLAYER0) \<and>
   terrain (squares empty_board (3, 1)) = TERRAIN_WATER \<and>
   terrain (squares empty_board (3, 0)) \<noteq> TERRAIN_WATER \<and>
   rules_can_capture (canonical_piece PIECE_TYPE_RAT PLAYER1) (canonical_piece PIECE_TYPE_ELEPHANT PLAYER0)
     3 1 3 0 empty_board = False"
  by (simp add: rules_can_capture_def canonical_piece_def mk_piece_def PIECE_INFO_def empty_board_def
      standard_terrain_def rules_is_river_def)

text \<open>
  C3, as amended: whenever the attacker stands on Water and the defender on a non-Water
  square, \<open>rules_can_capture\<close> returns false, for a Rat attacking an Elephant as for
  every other pair of pieces.
\<close>

theorem water_attack_refused:
  assumes "terrain (squares board (att_r, att_c)) = TERRAIN_WATER"
    and "terrain (squares board (def_r, def_c)) \<noteq> TERRAIN_WATER"
  shows "\<not> rules_can_capture attacker defender att_r att_c def_r def_c board"
  using assms by (simp add: rules_can_capture_def Let_def)

theorem water_attack_refused_witness:
  "terrain (squares empty_board (3, 1)) = TERRAIN_WATER \<and>
   terrain (squares empty_board (3, 0)) \<noteq> TERRAIN_WATER \<and>
   \<not> rules_can_capture (canonical_piece PIECE_TYPE_RAT PLAYER1) (canonical_piece PIECE_TYPE_ELEPHANT PLAYER0)
     3 1 3 0 empty_board"
proof -
  have w: "terrain (squares empty_board (3, 1)) = TERRAIN_WATER"
    by (simp add: empty_board_def standard_terrain_def rules_is_river_def)
  have l: "terrain (squares empty_board (3, 0)) \<noteq> TERRAIN_WATER"
    by (simp add: empty_board_def standard_terrain_def rules_is_river_def)
  from water_attack_refused [OF w l] w l show ?thesis by blast
qed

text \<open>
  C4. For two pieces of opposite sides, whatever their ranks and the squares they stand
  on: an Elephant never captures a Rat, and a Rat that is not on Water captures an
  Elephant.
\<close>

theorem rat_elephant_special_case:
  assumes "player attacker \<noteq> player defender"
  shows "(ptype attacker = PIECE_TYPE_ELEPHANT \<and> ptype defender = PIECE_TYPE_RAT \<longrightarrow>
            \<not> rules_can_capture attacker defender att_r att_c def_r def_c board) \<and>
         (ptype attacker = PIECE_TYPE_RAT \<and> ptype defender = PIECE_TYPE_ELEPHANT \<and>
          terrain (squares board (att_r, att_c)) \<noteq> TERRAIN_WATER \<longrightarrow>
            rules_can_capture attacker defender att_r att_c def_r def_c board)"
  using assms by (simp add: rules_can_capture_def Let_def)

theorem rat_elephant_special_case_witness:
  "\<not> rules_can_capture (canonical_piece PIECE_TYPE_ELEPHANT PLAYER1) (canonical_piece PIECE_TYPE_RAT PLAYER0)
       4 3 5 3 empty_board \<and>
   rules_can_capture (canonical_piece PIECE_TYPE_RAT PLAYER1) (canonical_piece PIECE_TYPE_ELEPHANT PLAYER0)
       4 3 5 3 empty_board \<and>
   rules_get_effective_rank (canonical_piece PIECE_TYPE_RAT PLAYER1) 4 3 empty_board
     < rules_get_effective_rank (canonical_piece PIECE_TYPE_ELEPHANT PLAYER0) 5 3 empty_board"
proof -
  have opp1: "player (canonical_piece PIECE_TYPE_ELEPHANT PLAYER1) \<noteq>
              player (canonical_piece PIECE_TYPE_RAT PLAYER0)"
    by (simp add: canonical_piece_def mk_piece_def)
  have opp2: "player (canonical_piece PIECE_TYPE_RAT PLAYER1) \<noteq>
              player (canonical_piece PIECE_TYPE_ELEPHANT PLAYER0)"
    by (simp add: canonical_piece_def mk_piece_def)
  have land: "terrain (squares empty_board (4, 3)) \<noteq> TERRAIN_WATER"
    by (simp add: empty_board_def standard_terrain_def rules_is_river_def)
  have ranks: "rules_get_effective_rank (canonical_piece PIECE_TYPE_RAT PLAYER1) 4 3 empty_board
     < rules_get_effective_rank (canonical_piece PIECE_TYPE_ELEPHANT PLAYER0) 5 3 empty_board"
    by (simp add: rules_get_effective_rank_def canonical_piece_def mk_piece_def PIECE_INFO_def)
  from rat_elephant_special_case [OF opp1, of 4 3 5 3 empty_board]
       rat_elephant_special_case [OF opp2, of 4 3 5 3 empty_board] land ranks
  show ?thesis by (simp add: canonical_piece_def mk_piece_def)
qed

section \<open>Evaluation of terminal positions\<close>

text \<open>
  C9. On a board whose game status is a win of Player1, a win of Player0 or a draw,
  \<open>evaluate_board_internal\<close> returns \<open>WIN_SCORE\<close>, \<open>LOSE_SCORE\<close> or \<open>DRAW_SCORE\<close>
  respectively, whatever the heuristic terms would be.
\<close>

theorem evaluate_terminal:
  "(rules_get_game_status board = GAME_STATUS_PLAYER1_WINS \<longrightarrow>
      evaluate_board_internal heur board = WIN_SCORE) \<and>
   (rules_get_game_status board = GAME_STATUS_PLAYER0_WINS \<longrightarrow>
      evaluate_board_internal heur board = LOSE_SCORE) \<and>
   (rules_get_game_status board = GAME_STATUS_DRAW \<longrightarrow>
      evaluate_board_internal heur board = DRAW_SCORE)"
  by (simp add: evaluate_board_internal_def Let_def)

theorem evaluate_terminal_witness:
  "evaluate_board_internal (\<lambda>b. 123)
     (place PIECE_TYPE_CAT PLAYER1 (8, 3) (place PIECE_TYPE_DOG PLAYER0 (4, 3) empty_board)) = WIN_SCORE \<and>
   evaluate_board_internal (\<lambda>b. 123)
     (place PIECE_TYPE_CAT PLAYER1 (2, 3) (place PIECE_TYPE_DOG PLAYER0 (0, 3) empty_board)) = LOSE_SCORE \<and>
   evaluate_board_internal (\<lambda>b. 123) empty_board = DRAW_SCORE"
proof -
  have s1: "rules_get_game_status
     (place PIECE_TYPE_CAT PLAYER1 (8, 3) (place PIECE_TYPE_DOG PLAYER0 (4, 3) empty_board))
       = GAME_STATUS_PLAYER1_WINS"
    by code_simp
  have s2: "rules_get_game_status
     (place PIECE_TYPE_CAT PLAYER1 (2, 3) (place PIECE_TYPE_DOG PLAYER0 (0, 3) empty_board))
       = GAME_STATUS_PLAYER0_WINS"
    by code_simp
  have s3: "rules_get_game_status empty_board = GAME_STATUS_DRAW"
    by code_simp
  from evaluate_terminal
         [of "place PIECE_TYPE_CAT PLAYER1 (8, 3) (place PIECE_TYPE_DOG PLAYER0 (4, 3) empty_board)"
             "\<lambda>b. 123"]
       evaluate_terminal
         [of "place PIECE_TYPE_CAT PLAYER1 (2, 3) (place PIECE_TYPE_DOG PLAYER0 (0, 3) empty_board)"
             "\<lambda>b. 123"]
       evaluate_terminal [of empty_board "\<lambda>b. 123"] s1 s2 s3
  show ?thesis by blast
qed

section \<open>Generated moves\<close>

lemma set_all_squares: "set all_squares = {rc. is_valid_move_coords (fst rc) (snd rc)}"
  by (auto simp: all_squares_def is_valid_move_coords_def)

lemma distinct_all_squares: "distinct all_squares"
  by (simp add: all_squares_def distinct_product)

lemma append_capped_set:
  "set (fold (\<lambda>m ms. if int (length ms) < n then ms @ [m] else ms) xs acc) \<subseteq> set acc \<union> set xs"
proof (induction xs arbitrary: acc)
  case Nil
  then show ?case by simp
next
  case (Cons a xs)
  show ?case using Cons.IH [of "acc @ [a]"] Cons.IH [of acc] by (auto split: if_splits)
qed

lemma generate_fold_set:
  "m \<in> set (fold (\<lambda>rc moves_array.
             if ptype (piece (squares board rc)) \<noteq> NO_PIECE \<and> player (piece (squares board rc)) = plr
             then fold (\<lambda>m ms. if int (length ms) < BOARD_ROWS * BOARD_COLS * 8 then ms @ [m] else ms)
                    (rules_get_valid_moves_for_piece board (fst rc) (snd rc) captures_only) moves_array
             else moves_array) sqs acc) \<Longrightarrow>
   m \<in> set acc \<or> (\<exists>rc \<in> set sqs. ptype (piece (squares board rc)) \<noteq> NO_PIECE \<and>
        player (piece (squares board rc)) = plr \<and>
        m \<in> set (rules_get_valid_moves_for_piece board (fst rc) (snd rc) captures_only))"
proof (induction sqs arbitrary: acc)
  case Nil
  then show ?case by simp
next
  case (Cons rc sqs)
  show ?case
  proof (cases "ptype (piece (squares board rc)) \<noteq> NO_PIECE \<and> player (piece (squares board rc)) = plr")
    case True
    with Cons.prems Cons.IH [of "fold (\<lambda>m ms. if int (length ms) < BOARD_ROWS * BOARD_COLS * 8 then ms @ [m] else ms)
                    (rules_get_valid_moves_for_piece board (fst rc) (snd rc) captures_only) acc"]
    have "m \<in> set (fold (\<lambda>m ms. if int (length ms) < BOARD_ROWS * BOARD_COLS * 8 then ms @ [m] else ms)
                    (rules_get_valid_moves_for_piece board (fst rc) (snd rc) captures_only) acc) \<or>
      (\<exists>rc \<in> set sqs. ptype (piece (squares board rc)) \<noteq> NO_PIECE \<and>
        player (piece (squares board rc)) = plr \<and>
        m \<in> set (rules_get_valid_moves_for_piece board (fst rc) (snd rc) captures_only))"
      by simp
    with True append_capped_set [of "BOARD_ROWS * BOARD_COLS * 8" "rules_get_valid_moves_for_piece board (fst rc) (snd rc) captures_only" acc]
    show ?thesis by auto
  next
    case False
    with Cons.prems Cons.IH [of acc] show ?thesis by auto
  qed
qed

lemma generated_move_origin:
  assumes "m \<in> set (generate_all_valid_moves board plr captures_only)"
  shows "\<exists>r c. is_valid_move_coords r c \<and> ptype (piece (squares board (r, c))) \<noteq> NO_PIECE \<and>
           player (piece (squares board (r, c))) = plr \<and>
           m \<in> set (rules_get_valid_moves_for_piece board r c captures_only)"
proof -
  from assms generate_fold_set [of m board plr captures_only all_squares "[]"]
  obtain rc where "rc \<in> set all_squares" "ptype (piece (squares board rc)) \<noteq> NO_PIECE"
    "player (piece (squares board rc)) = plr"
    "m \<in> set (rules_get_valid_moves_for_piece board (fst rc) (snd rc) captures_only)"
    unfolding generate_all_valid_moves_def by auto
  then show ?thesis
    by (intro exI [of _ "fst rc"] exI [of _ "snd rc"]) (simp add: set_all_squares)
qed

lemma step_moves_fit:
  assumes "m \<in> set (step_moves board r c co d)" "d \<in> {(- 1, 0), (1, 0), (0, - 1), (0, 1)}"
  shows "move_fits board r c m"
  using assms
  by (auto simp: step_moves_def Let_def move_fits_def split: if_splits option.splits)

lemma jump_paths_targets:
  assumes "jp \<in> set (jump_paths r c pt)" "is_valid_move_coords r c"
  shows "is_valid_move_coords (fst jp) (fst (snd jp)) \<and> (fst jp, fst (snd jp)) \<noteq> (r, c)"
  using assms
  by (auto simp: jump_paths_def is_valid_move_coords_def rules_is_river_def split: if_splits)

lemma jump_moves_fit:
  assumes "m \<in> set (jump_moves board r c co jp)" "jp \<in> set (jump_paths r c pt)" "is_valid_move_coords r c"
  shows "move_fits board r c m"
  using assms(1) jump_paths_targets [OF assms(2,3)]
  by (auto simp: jump_moves_def Let_def move_fits_def split: if_splits option.splits)

lemma piece_moves_fit:
  assumes "m \<in> set (rules_get_valid_moves_for_piece board r c co)" "is_valid_move_coords r c"
  shows "move_fits board r c m"
proof -
  from assms(1) have "(\<exists>d \<in> {(- 1, 0), (1, 0), (0, - 1), (0, 1)}. m \<in> set (step_moves board r c co d)) \<or>
     (\<exists>jp \<in> set (jump_paths r c (ptype (piece (squares board (r, c))))). m \<in> set (jump_moves board r c co jp))"
    by (auto simp: rules_get_valid_moves_for_piece_def Let_def split: if_splits)
  then show ?thesis
    using step_moves_fit jump_moves_fit assms(2) by blast
qed

lemma generated_move_fits:
  assumes "m \<in> set (generate_all_valid_moves board plr co)"
  shows "is_valid_move_coords (from_row m) (from_col m) \<and>
         ptype (piece (squares board (from_row m, from_col m))) \<noteq> NO_PIECE \<and>
         player (piece (squares board (from_row m, from_col m))) = plr \<and>
         move_fits board (from_row m) (from_col m) m"
proof -
  from generated_move_origin [OF assms] obtain r c where
    rc: "is_valid_move_coords r c" "ptype (piece (squares board (r, c))) \<noteq> NO_PIECE"
      "player (piece (squares board (r, c))) = plr"
      "m \<in> set (rules_get_valid_moves_for_piece board r c co)" by blast
  from piece_moves_fit [OF rc(4) rc(1)] have f: "move_fits board r c m" .
  then have "from_row m = r" "from_col m = c" by (simp_all add: move_fits_def)
  with rc f show ?thesis by simp
qed

section \<open>Incremental hash\<close>

lemma key_fold_square_key:
  "fold (\<lambda>rc key. if ptype (piece (squares board rc)) \<noteq> NO_PIECE
                    then (let pc = piece (squares board rc)
                          in key XOR zobrist_table st (ptype pc, player pc, fst rc, snd rc))
                    else key) xs k
   = fold (\<lambda>rc key. key XOR square_key st board rc) xs k"
  by (induction xs arbitrary: k) (simp_all add: square_key_def Let_def)

lemma xor_fold_notin:
  "a \<notin> set xs \<Longrightarrow> fold (\<lambda>x k. k XOR (g(a := v)) x) xs (k :: 64 word) = fold (\<lambda>x k. k XOR g x) xs k"
  by (induction xs arbitrary: k) auto

lemma xor_fold_shift:
  "fold (\<lambda>x k. k XOR g x) xs (k XOR (w :: 64 word)) = fold (\<lambda>x k. k XOR g x) xs k XOR w"
proof (induction xs arbitrary: k)
  case Nil
  then show ?case by simp
next
  case (Cons x xs)
  have "(k XOR w) XOR g x = (k XOR g x) XOR w"
    by (simp add: xor.assoc xor.commute xor.left_commute)
  with Cons.IH [of "k XOR g x"] show ?case by simp
qed

lemma xor_fold_upd:
  "distinct xs \<Longrightarrow> a \<in> set xs \<Longrightarrow>
   fold (\<lambda>x k. k XOR (g(a := v)) x) xs (k :: 64 word) = fold (\<lambda>x k. k XOR g x) xs k XOR g a XOR v"
proof (induction xs arbitrary: k)
  case Nil
  then show ?case by simp
next
  case (Cons x xs)
  show ?case
  proof (cases "x = a")
    case True
    with Cons.prems have "a \<notin> set xs" by simp
    then have "fold (\<lambda>x k. k XOR (g(a := v)) x) xs (k XOR v) = fold (\<lambda>x k. k XOR g x) xs (k XOR v)"
      by (rule xor_fold_notin)
    also have "\<dots> = fold (\<lambda>x k. k XOR g x) xs k XOR v" by (rule xor_fold_shift)
    also have "fold (\<lambda>x k. k XOR g x) xs k = fold (\<lambda>x k. k XOR g x) xs (k XOR g a) XOR g a"
      by (simp add: xor_fold_shift xor.assoc)
    finally show ?thesis using True by (simp add: xor.assoc xor.commute xor.left_commute)
  next
    case False
    with Cons.prems Cons.IH [of "k XOR g x"] show ?thesis by simp
  qed
qed

lemma zobrist_initialized_after: "zobrist_initialized (initialize_zobrist st)"
  by (simp add: initialize_zobrist_def split: prod.splits)

lemma compute_key_state:
  assumes "compute_zobrist_key_full st0 board plr = (h, st)"
  shows "zobrist_initialized st"
  using assms by (auto simp: compute_zobrist_key_full_def Let_def zobrist_initialized_after split: if_splits)

lemma compute_key_eq:
  assumes "zobrist_initialized st"
  shows "compute_zobrist_key_full st board plr =
     (fold (\<lambda>rc key. key XOR square_key st board rc) all_squares 0 XOR
        (if plr = PLAYER1 then zobrist_player1_to_move st else 0), st)"
  using assms by (simp add: compute_zobrist_key_full_def Let_def key_fold_square_key)

lemma compute_key_eq':
  assumes "compute_zobrist_key_full st0 board plr = (h, st)"
  shows "h = fold (\<lambda>rc key. key XOR square_key st board rc) all_squares 0 XOR
        (if plr = PLAYER1 then zobrist_player1_to_move st else 0)"
  using assms by (auto simp: compute_zobrist_key_full_def Let_def key_fold_square_key split: if_splits)

lemma compute_key_again:
  assumes "compute_zobrist_key_full st0 board plr = (h, st)"
  shows "compute_zobrist_key_full st board plr = (h, st)"
  using compute_key_eq [OF compute_key_state [OF assms]] compute_key_eq' [OF assms] by simp

lemma simulate_squares:
  "squares (fst (simulate_move_and_update_hash st board m mt plr h)) =
     (squares board)
       ((to_row m, to_col m) := (squares board (to_row m, to_col m))
            \<lparr>piece := \<lparr>ptype = mt, player = plr, rank = rank (PIECE_INFO ! nat mt),
                        pvalue = pvalue (PIECE_INFO ! nat mt)\<rparr>\<rparr>,
        (from_row m, from_col m) :=
          (if (from_row m, from_col m) = (to_row m, to_col m)
           then (squares board (to_row m, to_col m))
              \<lparr>piece := \<lparr>ptype = NO_PIECE, player = plr, rank = rank (PIECE_INFO ! nat mt),
                        pvalue = pvalue (PIECE_INFO ! nat mt)\<rparr>\<rparr>
           else (squares board (from_row m, from_col m))
              \<lparr>piece := (piece (squares board (from_row m, from_col m)))\<lparr>ptype := NO_PIECE\<rparr>\<rparr>))"
  by (simp add: simulate_move_and_update_hash_def Let_def)

lemma simulate_hash:
  "snd (simulate_move_and_update_hash st board m mt plr h) =
     ((((h XOR zobrist_table st (mt, plr, from_row m, from_col m)) XOR
        (if captured_piece_type m \<noteq> NO_PIECE
         then zobrist_table st (captured_piece_type m, get_opponent plr, to_row m, to_col m) else 0)) XOR
       zobrist_table st (mt, plr, to_row m, to_col m)) XOR zobrist_player1_to_move st)"
  by (simp add: simulate_move_and_update_hash_def Let_def)

lemma simulate_square_key:
  assumes "(from_row m, from_col m) \<noteq> (to_row m, to_col m)" "mt \<noteq> NO_PIECE"
  shows "square_key st (fst (simulate_move_and_update_hash st board m mt plr h)) =
     ((square_key st board)((to_row m, to_col m) := zobrist_table st (mt, plr, to_row m, to_col m)))
       ((from_row m, from_col m) := 0)"
  using assms by (auto simp: fun_eq_iff square_key_def simulate_squares)

lemma hash_step:
  assumes owned: "pieces_owned board"
    and legal: "m \<in> set (generate_all_valid_moves board plr co)"
    and init: "zobrist_initialized st"
    and h: "compute_zobrist_key_full st board plr = (h, st)"
  shows "compute_zobrist_key_full st (fst (simulate_move_and_update_hash st board m (piece_type m) plr h))
           (get_opponent plr)
         = (snd (simulate_move_and_update_hash st board m (piece_type m) plr h), st)"
proof -
  let ?from = "(from_row m, from_col m)" and ?to = "(to_row m, to_col m)"
  let ?z = "zobrist_table st" and ?K = "zobrist_player1_to_move st"
  let ?F = "\<lambda>g. fold (\<lambda>rc key. key XOR g rc) all_squares (0 :: 64 word)"
  from generated_move_fits [OF legal] have
    vf: "is_valid_move_coords (from_row m) (from_col m)" and
    occ: "ptype (piece (squares board ?from)) \<noteq> NO_PIECE" and
    own: "player (piece (squares board ?from)) = plr" and
    fits: "move_fits board (from_row m) (from_col m) m" by simp_all
  from fits have
    vt: "is_valid_move_coords (to_row m) (to_col m)" and
    ne: "?to \<noteq> ?from" and
    pt: "piece_type m = ptype (piece (squares board ?from))" and
    cap: "captured_piece_type m = ptype (piece (squares board ?to))" and
    opp: "ptype (piece (squares board ?to)) \<noteq> NO_PIECE \<Longrightarrow> player (piece (squares board ?to)) \<noteq> plr"
    using own by (simp_all add: move_fits_def)
  from vf vt have inf: "?from \<in> set all_squares" and into: "?to \<in> set all_squares"
    by (simp_all add: set_all_squares)
  from owned inf occ own have plr01: "plr = PLAYER0 \<or> plr = PLAYER1"
    by (auto simp: pieces_owned_def)
  have opp': "ptype (piece (squares board ?to)) \<noteq> NO_PIECE \<Longrightarrow>
      player (piece (squares board ?to)) = get_opponent plr"
    using owned into opp plr01 by (auto simp: pieces_owned_def get_opponent_def)
  have kfrom: "square_key st board ?from = ?z (piece_type m, plr, from_row m, from_col m)"
    using occ own pt by (simp add: square_key_def)
  have kto: "square_key st board ?to =
      (if captured_piece_type m \<noteq> NO_PIECE
       then ?z (captured_piece_type m, get_opponent plr, to_row m, to_col m) else 0)"
    using cap opp' by (simp add: square_key_def)
  have mtne: "piece_type m \<noteq> NO_PIECE" using pt occ by simp
  have ne': "?from \<noteq> ?to" using ne by auto
  let ?g1 = "(square_key st board)(?to := ?z (piece_type m, plr, to_row m, to_col m))"
  have "?F (square_key st (fst (simulate_move_and_update_hash st board m (piece_type m) plr h)))
        = ?F (?g1(?from := 0))"
    by (simp only: simulate_square_key [OF ne' mtne])
  also have "\<dots> = ?F ?g1 XOR ?g1 ?from XOR 0"
    by (rule xor_fold_upd [OF distinct_all_squares inf])
  also have "?F ?g1 = ?F (square_key st board) XOR square_key st board ?to XOR
       ?z (piece_type m, plr, to_row m, to_col m)"
    by (rule xor_fold_upd [OF distinct_all_squares into])
  also have "?g1 ?from = square_key st board ?from" using ne by auto
  finally have board_key:
    "?F (square_key st (fst (simulate_move_and_update_hash st board m (piece_type m) plr h)))
       = (?F (square_key st board) XOR square_key st board ?to XOR
            ?z (piece_type m, plr, to_row m, to_col m)) XOR square_key st board ?from XOR 0" .
  from h init have hval: "h = ?F (square_key st board) XOR (if plr = PLAYER1 then ?K else 0)"
    by (simp add: compute_key_eq)
  have side: "(if plr = PLAYER1 then ?K else 0) XOR ?K = (if get_opponent plr = PLAYER1 then ?K else 0)"
    using plr01 by (auto simp: get_opponent_def)
  define A where "A = ?F (square_key st board)"
  define zf where "zf = ?z (piece_type m, plr, from_row m, from_col m)"
  define zt where "zt = ?z (piece_type m, plr, to_row m, to_col m)"
  define zc where "zc = (if captured_piece_type m \<noteq> NO_PIECE
       then ?z (captured_piece_type m, get_opponent plr, to_row m, to_col m) else 0)"
  define s where "s = (if plr = PLAYER1 then ?K else 0)"
  define s' where "s' = (if get_opponent plr = PLAYER1 then ?K else 0)"
  have lhs: "compute_zobrist_key_full st (fst (simulate_move_and_update_hash st board m (piece_type m) plr h))
           (get_opponent plr) = (((A XOR zc XOR zt) XOR zf XOR 0) XOR s', st)"
    unfolding compute_key_eq [OF init] board_key kfrom kto A_def zf_def zt_def zc_def s'_def ..
  have rhs: "snd (simulate_move_and_update_hash st board m (piece_type m) plr h)
      = ((((A XOR s) XOR zf) XOR zc) XOR zt) XOR ?K"
    unfolding simulate_hash hval A_def zf_def zt_def zc_def s_def ..
  have side': "s XOR ?K = s'" using side by (simp add: s_def s'_def)
  have "((A XOR zc XOR zt) XOR zf XOR 0) XOR s' = ((((A XOR s) XOR zf) XOR zc) XOR zt) XOR ?K"
    unfolding side' [symmetric]
    by (simp add: xor.assoc xor.commute xor.left_commute)
  with lhs rhs show ?thesis by simp
qed

lemma simulate_keeps_owned:
  assumes owned: "pieces_owned board"
    and legal: "m \<in> set (generate_all_valid_moves board plr co)"
  shows "pieces_owned (fst (simulate_move_and_update_hash st board m (piece_type m) plr h))"
proof -
  from generated_move_fits [OF legal] owned have "plr = PLAYER0 \<or> plr = PLAYER1"
    by (auto simp: pieces_owned_def set_all_squares)
  with owned show ?thesis
    by (auto simp: pieces_owned_def simulate_squares)
qed

lemma hash_line:
  assumes "pieces_owned board" "zobrist_initialized st"
    and "compute_zobrist_key_full st board plr = (h, st)"
    and "play_line st board plr h ms = Some (board', plr', h')"
  shows "compute_zobrist_key_full st board' plr' = (h', st)"
  using assms
proof (induction ms arbitrary: board plr h)
  case Nil
  then show ?case by simp
next
  case (Cons m ms)
  from Cons.prems(4) have legal: "m \<in> set (generate_all_valid_moves board plr False)"
    by (simp split: if_splits)
  obtain b1 h1 where sim: "simulate_move_and_update_hash st board m (piece_type m) plr h = (b1, h1)"
    by (cases "simulate_move_and_update_hash st board m (piece_type m) plr h")
  with Cons.prems(4) legal have rest: "play_line st b1 (get_opponent plr) h1 ms = Some (board', plr', h')"
    by simp
  from hash_step [OF Cons.prems(1) legal Cons.prems(2) Cons.prems(3)] sim
  have k1: "compute_zobrist_key_full st b1 (get_opponent plr) = (h1, st)" by simp
  from simulate_keeps_owned [OF Cons.prems(1) legal, of st h] sim
  have o1: "pieces_owned b1" by simp
  from Cons.IH [OF o1 Cons.prems(2) k1 rest] show ?case .
qed

text \<open>
  C1. On a board whose pieces belong to Player0 or Player1, start from the hash that
  \<open>compute_zobrist_key_full\<close> computes for the side to move and apply any sequence of
  generated moves with \<open>simulate_move_and_update_hash\<close>, the sides alternating: the
  incrementally updated hash is the one \<open>compute_zobrist_key_full\<close> computes for the
  resulting board and the side then to move. A single move is the sequence of length one.
\<close>

theorem hash_consistency:
  assumes "pieces_owned board"
    and "compute_zobrist_key_full st0 board plr = (h, st)"
    and "play_line st board plr h ms = Some (board', plr', h')"
  shows "compute_zobrist_key_full st board' plr' = (h', st)"
  using hash_line [OF assms(1) compute_key_state [OF assms(2)] compute_key_again [OF assms(2)] assms(3)] .

theorem hash_consistency_witness:
  "pieces_owned jump_board \<and>
   (case play_line test_engine jump_board PLAYER1
           (fst (compute_zobrist_key_full test_engine jump_board PLAYER1)) test_line of
      None \<Rightarrow> False
    | Some (board', plr', h') \<Rightarrow>
        plr' = PLAYER1 \<and> h' = fst (compute_zobrist_key_full test_engine board' plr'))"
proof -
  have owned: "pieces_owned jump_board" by code_simp
  have init: "zobrist_initialized test_engine" by (simp add: test_engine_def)
  obtain h where k: "compute_zobrist_key_full test_engine jump_board PLAYER1 = (h, test_engine)"
    using compute_key_eq [OF init] by simp
  have "\<not> Option.is_none (play_line test_engine jump_board PLAYER1
           (fst (compute_zobrist_key_full test_engine jump_board PLAYER1)) test_line)"
    by code_simp
  then obtain board' plr' h' where pl: "play_line test_engine jump_board PLAYER1 h test_line
      = Some (board', plr', h')"
    using k by (auto simp: Option.is_none_def)
  have p: "map_option (\<lambda>x. fst (snd x)) (play_line test_engine jump_board PLAYER1
           (fst (compute_zobrist_key_full test_engine jump_board PLAYER1)) test_line) = Some PLAYER1"
    by code_simp
  from hash_consistency [OF owned k pl] pl k p owned show ?thesis by simp
qed

section \<open>Frame of a simulated move\<close>

lemma count_pieces_card:
  "count_pieces board = card {rc \<in> set all_squares. ptype (piece (squares board rc)) \<noteq> NO_PIECE}"
proof -
  have "{rc \<in> set all_squares. ptype (piece (squares board rc)) \<noteq> NO_PIECE}
        = {rc. ptype (piece (squares board rc)) \<noteq> NO_PIECE} \<inter> set all_squares" by auto
  then show ?thesis
    by (simp add: count_pieces_def distinct_length_filter [OF distinct_all_squares])
qed

lemma simulate_count:
  assumes legal: "m \<in> set (generate_all_valid_moves board plr co)"
  shows "count_pieces board =
         count_pieces (fst (simulate_move_and_update_hash st board m (piece_type m) plr h)) +
           (if captured_piece_type m \<noteq> NO_PIECE then 1 else 0)"
proof -
  let ?from = "(from_row m, from_col m)" and ?to = "(to_row m, to_col m)"
  let ?b' = "fst (simulate_move_and_update_hash st board m (piece_type m) plr h)"
  let ?S = "{rc \<in> set all_squares. ptype (piece (squares board rc)) \<noteq> NO_PIECE}"
  let ?S' = "{rc \<in> set all_squares. ptype (piece (squares ?b' rc)) \<noteq> NO_PIECE}"
  from generated_move_fits [OF legal] have
    vf: "is_valid_move_coords (from_row m) (from_col m)" and
    occ: "ptype (piece (squares board ?from)) \<noteq> NO_PIECE" and
    fits: "move_fits board (from_row m) (from_col m) m" by simp_all
  from fits have
    vt: "is_valid_move_coords (to_row m) (to_col m)" and
    ne: "?to \<noteq> ?from" and
    pt: "piece_type m = ptype (piece (squares board ?from))" and
    cap: "captured_piece_type m = ptype (piece (squares board ?to))"
    by (simp_all add: move_fits_def)
  from vf vt have inf: "?from \<in> set all_squares" and into: "?to \<in> set all_squares"
    by (simp_all add: set_all_squares)
  have fin: "finite ?S" by simp
  have S': "?S' = insert ?to (?S - {?from})"
    using ne pt occ into by (auto simp: simulate_squares)
  have fromS: "?from \<in> ?S" using inf occ by simp
  have cS: "card ?S = Suc (card (?S - {?from}))"
    by (rule card.remove [OF fin fromS])
  show ?thesis
  proof (cases "captured_piece_type m \<noteq> NO_PIECE")
    case True
    with cap into have "?to \<in> ?S - {?from}" using ne by auto
    then have "?S' = ?S - {?from}" using S' by auto
    with cS have "card ?S = Suc (card ?S')" by simp
    then show ?thesis using True by (simp add: count_pieces_card)
  next
    case False
    with cap have "?to \<notin> ?S - {?from}" by auto
    then have "card (insert ?to (?S - {?from})) = Suc (card (?S - {?from}))" using fin by simp
    with cS S' have "card ?S = card ?S'" by simp
    then show ?thesis using False by (simp add: count_pieces_card)
  qed
qed

text \<open>
  C10. The moves that \<open>simulate_move_and_update_hash\<close> receives are those that
  \<open>generate_all_valid_moves\<close> has produced for the player to move, each applied with its
  own piece type and with whatever ordering score the search has since written into it.
  For every board, player and such move, every square other than the origin and the
  destination is unchanged, the terrain of every square is unchanged, the origin (which
  held the moving piece of the player) has piece type \<open>NO_PIECE\<close>, and the destination
  holds exactly the moving piece with the rank and value of \<open>PIECE_INFO\<close>. The move is a
  capture exactly when the destination was occupied; the number of pieces never increases,
  it decreases by one when the move is a capture and is unchanged otherwise.
\<close>

theorem simulate_generated_move:
  assumes legal: "m \<in> set (generate_all_valid_moves board plr co)"
    and sim: "simulate_move_and_update_hash st board (m\<lparr>order_score := s\<rparr>) (piece_type m) plr h
                = (board', h')"
  shows "(\<forall>rc. rc \<noteq> (from_row m, from_col m) \<and> rc \<noteq> (to_row m, to_col m) \<longrightarrow>
            squares board' rc = squares board rc) \<and>
         (\<forall>rc. terrain (squares board' rc) = terrain (squares board rc)) \<and>
         ptype (piece (squares board' (from_row m, from_col m))) = NO_PIECE \<and>
         ptype (piece (squares board (from_row m, from_col m))) = piece_type m \<and>
         player (piece (squares board (from_row m, from_col m))) = plr \<and>
         piece (squares board' (to_row m, to_col m)) =
           \<lparr>ptype = piece_type m, player = plr, rank = rank (PIECE_INFO ! nat (piece_type m)),
            pvalue = pvalue (PIECE_INFO ! nat (piece_type m))\<rparr> \<and>
         captured_piece_type m = ptype (piece (squares board (to_row m, to_col m))) \<and>
         count_pieces board' \<le> count_pieces board \<and>
         (captured_piece_type m \<noteq> NO_PIECE \<longrightarrow> count_pieces board' + 1 = count_pieces board) \<and>
         (captured_piece_type m = NO_PIECE \<longrightarrow> count_pieces board' = count_pieces board)"
proof -
  let ?m = "m\<lparr>order_score := s\<rparr>"
  have same: "simulate_move_and_update_hash st board ?m (piece_type m) plr h
        = simulate_move_and_update_hash st board m (piece_type m) plr h"
    by (simp add: simulate_move_and_update_hash_def Let_def)
  with sim have b': "board' = fst (simulate_move_and_update_hash st board m (piece_type m) plr h)"
    by simp
  from generated_move_fits [OF legal] have
    occ: "ptype (piece (squares board (from_row m, from_col m))) \<noteq> NO_PIECE" and
    own: "player (piece (squares board (from_row m, from_col m))) = plr" and
    fits: "move_fits board (from_row m) (from_col m) m" by simp_all
  from fits have
    ne: "(to_row m, to_col m) \<noteq> (from_row m, from_col m)" and
    pt: "piece_type m = ptype (piece (squares board (from_row m, from_col m)))" and
    cap: "captured_piece_type m = ptype (piece (squares board (to_row m, to_col m)))"
    by (simp_all add: move_fits_def)
  from ne have ne': "(from_row m, from_col m) \<noteq> (to_row m, to_col m)" by auto
  have 1: "\<forall>rc. rc \<noteq> (from_row m, from_col m) \<and> rc \<noteq> (to_row m, to_col m) \<longrightarrow>
            squares board' rc = squares board rc"
    unfolding b' by (simp add: simulate_squares)
  have 2: "\<forall>rc. terrain (squares board' rc) = terrain (squares board rc)"
    unfolding b' by (simp add: simulate_squares)
  have 3: "ptype (piece (squares board' (from_row m, from_col m))) = NO_PIECE"
    unfolding b' by (simp add: simulate_squares)
  have 4: "piece (squares board' (to_row m, to_col m)) =
           \<lparr>ptype = piece_type m, player = plr, rank = rank (PIECE_INFO ! nat (piece_type m)),
            pvalue = pvalue (PIECE_INFO ! nat (piece_type m))\<rparr>"
    unfolding b' using ne' by (auto simp: simulate_squares)
  have 5: "count_pieces board =
           count_pieces board' + (if captured_piece_type m \<noteq> NO_PIECE then 1 else 0)"
    unfolding b' by (rule simulate_count [OF legal])
  have 6: "count_pieces board' \<le> count_pieces board" using 5 by simp
  have 7: "captured_piece_type m \<noteq> NO_PIECE \<longrightarrow> count_pieces board' + 1 = count_pieces board"
    using 5 by simp
  have 8: "captured_piece_type m = NO_PIECE \<longrightarrow> count_pieces board' = count_pieces board"
    using 5 by simp
  from 1 2 3 4 6 7 8 pt [symmetric] own cap show ?thesis by blast
qed

theorem simulate_generated_move_witness:
  "mk_move 2 1 6 1 PIECE_TYPE_LION PIECE_TYPE_DOG \<in> set (generate_all_valid_moves jump_board PLAYER1 False) \<and>
   count_pieces jump_board = 3 \<and>
   count_pieces (fst (simulate_move_and_update_hash test_engine jump_board
       ((mk_move 2 1 6 1 PIECE_TYPE_LION PIECE_TYPE_DOG)\<lparr>order_score := 100400\<rparr>)
       PIECE_TYPE_LION PLAYER1 0)) = 2 \<and>
   piece (squares (fst (simulate_move_and_update_hash test_engine jump_board
       ((mk_move 2 1 6 1 PIECE_TYPE_LION PIECE_TYPE_DOG)\<lparr>order_score := 100400\<rparr>)
       PIECE_TYPE_LION PLAYER1 0)) (6, 1))
     = canonical_piece PIECE_TYPE_LION PLAYER1 \<and>
   ptype (piece (squares (fst (simulate_move_and_update_hash test_engine jump_board
       ((mk_move 2 1 6 1 PIECE_TYPE_LION PIECE_TYPE_DOG)\<lparr>order_score := 100400\<rparr>)
       PIECE_TYPE_LION PLAYER1 0)) (2, 1))) = NO_PIECE \<and>
   mk_move 2 1 2 2 PIECE_TYPE_LION NO_PIECE \<in> set (generate_all_valid_moves jump_board PLAYER1 False) \<and>
   count_pieces (fst (simulate_move_and_update_hash test_engine jump_board
       (mk_move 2 1 2 2 PIECE_TYPE_LION NO_PIECE) PIECE_TYPE_LION PLAYER1 0)) = 3"
proof -
  let ?m = "mk_move 2 1 6 1 PIECE_TYPE_LION PIECE_TYPE_DOG"
  let ?r = "simulate_move_and_update_hash test_engine jump_board (?m\<lparr>order_score := 100400\<rparr>)
              PIECE_TYPE_LION PLAYER1 0"
  let ?q = "mk_move 2 1 2 2 PIECE_TYPE_LION NO_PIECE"
  let ?t = "simulate_move_and_update_hash test_engine jump_board ?q PIECE_TYPE_LION PLAYER1 0"
  have mem: "?m \<in> set (generate_all_valid_moves jump_board PLAYER1 False)" by code_simp
  have mem2: "?q \<in> set (generate_all_valid_moves jump_board PLAYER1 False)" by code_simp
  have cnt: "count_pieces jump_board = 3" by code_simp
  have fields: "from_row ?m = 2" "from_col ?m = 1" "to_row ?m = 6" "to_col ?m = 1"
    "piece_type ?m = PIECE_TYPE_LION" "captured_piece_type ?m = PIECE_TYPE_DOG"
    "piece_type ?q = PIECE_TYPE_LION" "captured_piece_type ?q = NO_PIECE"
    "?q\<lparr>order_score := 0\<rparr> = ?q"
    by (simp_all add: mk_move_def)
  have sim: "simulate_move_and_update_hash test_engine jump_board (?m\<lparr>order_score := 100400\<rparr>)
               (piece_type ?m) PLAYER1 0 = (fst ?r, snd ?r)" by (simp add: fields)
  have sim2: "simulate_move_and_update_hash test_engine jump_board (?q\<lparr>order_score := 0\<rparr>)
               (piece_type ?q) PLAYER1 0 = (fst ?t, snd ?t)" by (simp add: fields)
  have cp: "canonical_piece PIECE_TYPE_LION PLAYER1 =
      \<lparr>ptype = PIECE_TYPE_LION, player = PLAYER1, rank = rank (PIECE_INFO ! nat PIECE_TYPE_LION),
       pvalue = pvalue (PIECE_INFO ! nat PIECE_TYPE_LION)\<rparr>"
    by (simp add: canonical_piece_def mk_piece_def)
  note a = simulate_generated_move [OF mem sim]
  note b = simulate_generated_move [OF mem2 sim2]
  from a cnt fields have c1: "count_pieces (fst ?r) = 2" by simp
  from a fields cp have c2: "piece (squares (fst ?r) (6, 1)) = canonical_piece PIECE_TYPE_LION PLAYER1"
    by simp
  from a fields have c3: "ptype (piece (squares (fst ?r) (2, 1))) = NO_PIECE" by simp
  from b cnt fields have c4: "count_pieces (fst ?t) = 3" by simp
  from mem mem2 cnt c1 c2 c3 c4 show ?thesis by simp
qed

section \<open>River jumps\<close>

lemma step_moves_landing:
  "step_moves board r c co d =
     (if is_valid_move_coords (r + fst d) (c + snd d) \<and> landing_allowed board r c co (r + fst d) (c + snd d)
      then [emitted_move board r c (r + fst d) (c + snd d)] else [])"
  by (auto simp: step_moves_def landing_allowed_def emitted_move_def Let_def)

lemma path_blocked_unrolled:
  "path_blocked board [r1, c1, r2, c2, r3, c3] 0 =
     (if r1 = - 1 \<and> c1 = - 1 then False
      else if \<not> rules_is_river r1 c1 \<or> ptype (piece (squares board (r1, c1))) \<noteq> NO_PIECE then True
      else if r2 = - 1 \<and> c2 = - 1 then False
      else if \<not> rules_is_river r2 c2 \<or> ptype (piece (squares board (r2, c2))) \<noteq> NO_PIECE then True
      else if r3 = - 1 \<and> c3 = - 1 then False
      else if \<not> rules_is_river r3 c3 \<or> ptype (piece (squares board (r3, c3))) \<noteq> NO_PIECE then True
      else False)"
  by (simp add: path_blocked.simps [of _ _ 0] path_blocked.simps [of _ _ 1]
      path_blocked.simps [of _ _ 2] path_blocked.simps [of _ _ 3] Let_def)

lemma jump_moves_landing:
  "jump_moves board r c co (nr, nc, rcs) =
     (if \<not> path_blocked board rcs 0 \<and> landing_allowed board r c co nr nc \<and>
         terrain (squares board (nr, nc)) \<noteq> TERRAIN_WATER
      then [emitted_move board r c nr nc] else [])"
  by (auto simp: jump_moves_def landing_allowed_def emitted_move_def Let_def)

lemma step_not_jump:
  assumes "m \<in> set (step_moves board r c co d)" "d \<in> {(- 1, 0), (1, 0), (0, - 1), (0, 1)}"
  shows "\<not> is_river_jump m"
  using assms by (auto simp: step_moves_landing emitted_move_def is_river_jump_def split: if_splits)

lemma piece_moves_split:
  "set (rules_get_valid_moves_for_piece board r c co) =
     (if ptype (piece (squares board (r, c))) = NO_PIECE then {}
      else (\<Union>d \<in> {(- 1, 0), (1, 0), (0, - 1), (0, 1)}. set (step_moves board r c co d)) \<union>
           (if ptype (piece (squares board (r, c))) = PIECE_TYPE_LION \<or>
               ptype (piece (squares board (r, c))) = PIECE_TYPE_TIGER
            then (\<Union>jp \<in> set (jump_paths r c (ptype (piece (squares board (r, c))))).
                    set (jump_moves board r c co jp))
            else {}))"
  by (auto simp: rules_get_valid_moves_for_piece_def Let_def)

lemma jumps_of_piece:
  "{m \<in> set (rules_get_valid_moves_for_piece board r c co). is_river_jump m} =
     (if ptype (piece (squares board (r, c))) = PIECE_TYPE_LION \<or>
         ptype (piece (squares board (r, c))) = PIECE_TYPE_TIGER
      then {m \<in> (\<Union>jp \<in> set (jump_paths r c (ptype (piece (squares board (r, c))))).
                    set (jump_moves board r c co jp)). is_river_jump m}
      else {})"
  using step_not_jump [of _ board r c co]
  by (auto simp: piece_moves_split)

lemma jump_paths_vertical:
  assumes "c = 1 \<or> c = 2 \<or> c = 4 \<or> c = 5" "(r = 2 \<and> nr = 6) \<or> (r = 6 \<and> nr = 2)"
    "pt = PIECE_TYPE_LION \<or> pt = PIECE_TYPE_TIGER"
  shows "jump_paths r c pt = [(nr, c, if r = 2 then [3, c, 4, c, 5, c] else [5, c, 4, c, 3, c])]"
  using assms by (auto simp: jump_paths_def rules_is_river_def)

lemma jump_clear:
  assumes "jp \<in> set (jump_paths r c pt)" "m \<in> set (jump_moves board r c co jp)" "strictly_between m rc"
  shows "ptype (piece (squares board rc)) = NO_PIECE"
proof -
  obtain nr nc rcs where jp: "jp = (nr, nc, rcs)" by (cases jp)
  from assms(2) have m: "m = emitted_move board r c nr nc" and nb: "\<not> path_blocked board rcs 0"
    unfolding jp by (auto simp: jump_moves_landing split: if_splits)
  from assms(1) jp consider
      (v1) "r = 2" "nr = 6" "nc = c" "rcs = [3, c, 4, c, 5, c]"
    | (v2) "r = 6" "nr = 2" "nc = c" "rcs = [5, c, 4, c, 3, c]"
    | (h1) "c = 0" "nr = r" "nc = 3" "rcs = [r, 1, r, 2, - 1, - 1]" "rules_is_river r 1"
    | (h2) "c = 3" "nr = r" "nc = 0" "rcs = [r, 2, r, 1, - 1, - 1]" "rules_is_river r 1"
    | (h3) "c = 3" "nr = r" "nc = 6" "rcs = [r, 4, r, 5, - 1, - 1]" "rules_is_river r 4"
    | (h4) "c = 6" "nr = r" "nc = 3" "rcs = [r, 5, r, 4, - 1, - 1]" "rules_is_river r 4"
    by (auto simp: jump_paths_def split: if_splits)
  then show ?thesis
  proof cases
    case v1
    with nb have "ptype (piece (squares board (3, c))) = NO_PIECE \<and>
        ptype (piece (squares board (4, c))) = NO_PIECE \<and> ptype (piece (squares board (5, c))) = NO_PIECE"
      by (simp add: path_blocked_unrolled split: if_splits)
    moreover from assms(3) v1 have "snd rc = c \<and> (fst rc = 3 \<or> fst rc = 4 \<or> fst rc = 5)"
      unfolding m by (auto simp: strictly_between_def emitted_move_def)
    ultimately show ?thesis by (cases rc) auto
  next
    case v2
    with nb have "ptype (piece (squares board (3, c))) = NO_PIECE \<and>
        ptype (piece (squares board (4, c))) = NO_PIECE \<and> ptype (piece (squares board (5, c))) = NO_PIECE"
      by (simp add: path_blocked_unrolled split: if_splits)
    moreover from assms(3) v2 have "snd rc = c \<and> (fst rc = 3 \<or> fst rc = 4 \<or> fst rc = 5)"
      unfolding m by (auto simp: strictly_between_def emitted_move_def)
    ultimately show ?thesis by (cases rc) auto
  next
    case h1
    with nb have "ptype (piece (squares board (r, 1))) = NO_PIECE \<and>
        ptype (piece (squares board (r, 2))) = NO_PIECE"
      by (simp add: path_blocked_unrolled rules_is_river_def split: if_splits)
    moreover from assms(3) h1 have "fst rc = r \<and> (snd rc = 1 \<or> snd rc = 2)"
      unfolding m by (auto simp: strictly_between_def emitted_move_def)
    ultimately show ?thesis by (cases rc) auto
  next
    case h2
    with nb have "ptype (piece (squares board (r, 1))) = NO_PIECE \<and>
        ptype (piece (squares board (r, 2))) = NO_PIECE"
      by (simp add: path_blocked_unrolled rules_is_river_def split: if_splits)
    moreover from assms(3) h2 have "fst rc = r \<and> (snd rc = 1 \<or> snd rc = 2)"
      unfolding m by (auto simp: strictly_between_def emitted_move_def)
    ultimately show ?thesis by (cases rc) auto
  next
    case h3
    with nb have "ptype (piece (squares board (r, 4))) = NO_PIECE \<and>
        ptype (piece (squares board (r, 5))) = NO_PIECE"
      by (simp add: path_blocked_unrolled rules_is_river_def split: if_splits)
    moreover from assms(3) h3 have "fst rc = r \<and> (snd rc = 4 \<or> snd rc = 5)"
      unfolding m by (auto simp: strictly_between_def emitted_move_def)
    ultimately show ?thesis by (cases rc) auto
  next
    case h4
    with nb have "ptype (piece (squares board (r, 4))) = NO_PIECE \<and>
        ptype (piece (squares board (r, 5))) = NO_PIECE"
      by (simp add: path_blocked_unrolled rules_is_river_def split: if_splits)
    moreover from assms(3) h4 have "fst rc = r \<and> (snd rc = 4 \<or> snd rc = 5)"
      unfolding m by (auto simp: strictly_between_def emitted_move_def)
    ultimately show ?thesis by (cases rc) auto
  qed
qed

lemma vertical_jumps:
  assumes pt: "ptype (piece (squares board (r, c))) = PIECE_TYPE_LION \<or>
               ptype (piece (squares board (r, c))) = PIECE_TYPE_TIGER"
    and col: "c = 1 \<or> c = 2 \<or> c = 4 \<or> c = 5"
    and row: "(r = 2 \<and> nr = 6) \<or> (r = 6 \<and> nr = 2)"
  shows "{m \<in> set (rules_get_valid_moves_for_piece board r c co). is_river_jump m} =
     (if ptype (piece (squares board (3, c))) = NO_PIECE \<and>
         ptype (piece (squares board (4, c))) = NO_PIECE \<and>
         ptype (piece (squares board (5, c))) = NO_PIECE \<and>
         landing_allowed board r c co nr c
      then {emitted_move board r c nr c} else {})"
proof -
  let ?pt = "ptype (piece (squares board (r, c)))"
  let ?rcs = "if r = 2 then [3, c, 4, c, 5, c] else [5, c, 4, c, 3, c]"
  have paths: "jump_paths r c ?pt = [(nr, c, ?rcs)]"
    by (rule jump_paths_vertical [OF col row pt])
  have blocked: "path_blocked board ?rcs 0 \<longleftrightarrow>
      \<not> (ptype (piece (squares board (3, c))) = NO_PIECE \<and>
         ptype (piece (squares board (4, c))) = NO_PIECE \<and>
         ptype (piece (squares board (5, c))) = NO_PIECE)"
    using col by (auto simp: path_blocked_unrolled rules_is_river_def)
  have water: "landing_allowed board r c co nr c \<Longrightarrow> terrain (squares board (nr, c)) \<noteq> TERRAIN_WATER"
    using pt by (auto simp: landing_allowed_def Let_def)
  have jump: "is_river_jump (emitted_move board r c nr c)"
    using row by (auto simp: is_river_jump_def emitted_move_def)
  have "{m \<in> set (rules_get_valid_moves_for_piece board r c co). is_river_jump m} =
      {m \<in> set (jump_moves board r c co (nr, c, ?rcs)). is_river_jump m}"
    using pt by (simp add: jumps_of_piece paths)
  also have "\<dots> = (if \<not> path_blocked board ?rcs 0 \<and> landing_allowed board r c co nr c
                    then {emitted_move board r c nr c} else {})"
    using water jump by (auto simp: jump_moves_landing)
  finally show ?thesis using blocked by simp
qed

text \<open>
  C5. Among the moves \<open>rules_get_valid_moves_for_piece\<close> emits for the piece at
  \<open>(r, c)\<close>: a river jump is emitted only when the piece is a Lion or a Tiger; every
  emitted jump crosses squares that hold no piece of either side; and for a Lion or Tiger at
  \<open>(2, c)\<close> or \<open>(6, c)\<close> with \<open>c\<close> in {1, 2, 4, 5} the only possible jump is the vertical
  one to \<open>(6, c)\<close> or \<open>(2, c)\<close>, emitted exactly when the three river cells (3,c), (4,c)
  and (5,c) are empty and the landing square passes the landing rules of an orthogonal step.
\<close>

theorem river_jump_rule:
  "(\<forall>m \<in> set (rules_get_valid_moves_for_piece board r c co). is_river_jump m \<longrightarrow>
      ptype (piece (squares board (r, c))) = PIECE_TYPE_LION \<or>
      ptype (piece (squares board (r, c))) = PIECE_TYPE_TIGER) \<and>
   (\<forall>m \<in> set (rules_get_valid_moves_for_piece board r c co). is_river_jump m \<longrightarrow>
      (\<forall>rc. strictly_between m rc \<longrightarrow> ptype (piece (squares board rc)) = NO_PIECE)) \<and>
   ((ptype (piece (squares board (r, c))) = PIECE_TYPE_LION \<or>
     ptype (piece (squares board (r, c))) = PIECE_TYPE_TIGER) \<and>
    (c = 1 \<or> c = 2 \<or> c = 4 \<or> c = 5) \<and> ((r = 2 \<and> nr = 6) \<or> (r = 6 \<and> nr = 2)) \<longrightarrow>
      {m \<in> set (rules_get_valid_moves_for_piece board r c co). is_river_jump m} =
        (if ptype (piece (squares board (3, c))) = NO_PIECE \<and>
            ptype (piece (squares board (4, c))) = NO_PIECE \<and>
            ptype (piece (squares board (5, c))) = NO_PIECE \<and>
            landing_allowed board r c co nr c
         then {emitted_move board r c nr c} else {}))"
proof (intro conjI ballI impI allI)
  fix m
  assume "m \<in> set (rules_get_valid_moves_for_piece board r c co)" "is_river_jump m"
  then have "m \<in> {m \<in> set (rules_get_valid_moves_for_piece board r c co). is_river_jump m}" by simp
  then show "ptype (piece (squares board (r, c))) = PIECE_TYPE_LION \<or>
      ptype (piece (squares board (r, c))) = PIECE_TYPE_TIGER"
    unfolding jumps_of_piece by (simp split: if_splits)
next
  fix m rc
  assume "m \<in> set (rules_get_valid_moves_for_piece board r c co)" "is_river_jump m"
    and btw: "strictly_between m rc"
  then have "m \<in> {m \<in> set (rules_get_valid_moves_for_piece board r c co). is_river_jump m}" by simp
  then obtain jp where "jp \<in> set (jump_paths r c (ptype (piece (squares board (r, c)))))"
      "m \<in> set (jump_moves board r c co jp)"
    unfolding jumps_of_piece by (auto split: if_splits)
  from jump_clear [OF this btw] show "ptype (piece (squares board rc)) = NO_PIECE" .
next
  assume "(ptype (piece (squares board (r, c))) = PIECE_TYPE_LION \<or>
     ptype (piece (squares board (r, c))) = PIECE_TYPE_TIGER) \<and>
    (c = 1 \<or> c = 2 \<or> c = 4 \<or> c = 5) \<and> ((r = 2 \<and> nr = 6) \<or> (r = 6 \<and> nr = 2))"
  then show "{m \<in> set (rules_get_valid_moves_for_piece board r c co). is_river_jump m} =
        (if ptype (piece (squares board (3, c))) = NO_PIECE \<and>
            ptype (piece (squares board (4, c))) = NO_PIECE \<and>
            ptype (piece (squares board (5, c))) = NO_PIECE \<and>
            landing_allowed board r c co nr c
         then {emitted_move board r c nr c} else {})"
    using vertical_jumps [of board r c nr co] by blast
qed

theorem river_jump_rule_witness:
  "{m \<in> set (rules_get_valid_moves_for_piece jump_board 2 1 False). is_river_jump m} =
      {mk_move 2 1 6 1 PIECE_TYPE_LION PIECE_TYPE_DOG} \<and>
   {m \<in> set (rules_get_valid_moves_for_piece blocked_board 2 1 False). is_river_jump m} = {} \<and>
   ptype (piece (squares blocked_board (4, 1))) = PIECE_TYPE_RAT \<and>
   ptype (piece (squares jump_board (4, 1))) = NO_PIECE"
proof -
  have lion: "ptype (piece (squares jump_board (2, 1))) = PIECE_TYPE_LION"
             "ptype (piece (squares blocked_board (2, 1))) = PIECE_TYPE_LION"
    by code_simp+
  have clear: "ptype (piece (squares jump_board (3, 1))) = NO_PIECE \<and>
            ptype (piece (squares jump_board (4, 1))) = NO_PIECE \<and>
            ptype (piece (squares jump_board (5, 1))) = NO_PIECE \<and>
            landing_allowed jump_board 2 1 False 6 1"
    by code_simp
  have rat: "ptype (piece (squares blocked_board (4, 1))) = PIECE_TYPE_RAT"
    by code_simp
  have em: "emitted_move jump_board 2 1 6 1 = mk_move 2 1 6 1 PIECE_TYPE_LION PIECE_TYPE_DOG"
    by code_simp
  have mem: "mk_move 2 1 6 1 PIECE_TYPE_LION PIECE_TYPE_DOG \<in> set (rules_get_valid_moves_for_piece jump_board 2 1 False)"
    by code_simp
  have btw: "strictly_between (mk_move 2 1 6 1 PIECE_TYPE_LION PIECE_TYPE_DOG) (4, 1)"
    by code_simp
  have jmp: "is_river_jump (mk_move 2 1 6 1 PIECE_TYPE_LION PIECE_TYPE_DOG)"
    by code_simp
  from river_jump_rule [of jump_board 2 1 False 6] lion clear em
  have 1: "{m \<in> set (rules_get_valid_moves_for_piece jump_board 2 1 False). is_river_jump m} =
      {mk_move 2 1 6 1 PIECE_TYPE_LION PIECE_TYPE_DOG}" by simp
  from river_jump_rule [of blocked_board 2 1 False 6] lion rat
  have 2: "{m \<in> set (rules_get_valid_moves_for_piece blocked_board 2 1 False). is_river_jump m} = {}"
    by simp
  from river_jump_rule [of jump_board 2 1 False 6] mem jmp btw
  have 3: "ptype (piece (squares jump_board (4, 1))) = NO_PIECE" by blast
  from 1 2 3 rat show ?thesis by simp
qed

section \<open>The body of alpha_beta\<close>






section \<open>Repetition\<close>






section \<open>What the search preserves\<close>








section \<open>The store into the transposition table\<close>





section \<open>Null-move pruning\<close>




section \<open>The move returned by the driver\<close>












lemma read_fold:
  "distinct xs \<Longrightarrow>
   fold (\<lambda>rc (k, board). (k + 3, board\<lparr>squares := (squares board)(rc := read_square flat_data k (squares board rc))\<rparr>))
     xs (k0, b)
   = (k0 + 3 * length xs,
      b\<lparr>squares := (\<lambda>rc. if rc \<in> set xs
                         then read_square flat_data (k0 + 3 * pos xs rc) (squares b rc)
                         else squares b rc)\<rparr>)"
proof (induction xs arbitrary: k0 b)
  case Nil
  show ?case by simp
next
  case (Cons x xs)
  let ?b = "b\<lparr>squares := (squares b)(x := read_square flat_data k0 (squares b x))\<rparr>"
  from Cons.prems have d: "distinct xs" and nx: "x \<notin> set xs" by simp_all
  have sq: "(\<lambda>rc. if rc \<in> set xs
                then read_square flat_data (k0 + 3 + 3 * pos xs rc) (squares ?b rc)
                else squares ?b rc)
          = (\<lambda>rc. if rc \<in> set (x # xs)
                then read_square flat_data (k0 + 3 * pos (x # xs) rc) (squares b rc)
                else squares b rc)"
    using nx by (auto simp: fun_eq_iff add.assoc)
  have "fold (\<lambda>rc (k, board). (k + 3, board\<lparr>squares := (squares board)(rc := read_square flat_data k (squares board rc))\<rparr>))
     (x # xs) (k0, b)
     = fold (\<lambda>rc (k, board). (k + 3, board\<lparr>squares := (squares board)(rc := read_square flat_data k (squares board rc))\<rparr>))
     xs (k0 + 3, ?b)" by simp
  also have "\<dots> = (k0 + 3 + 3 * length xs,
      ?b\<lparr>squares := (\<lambda>rc. if rc \<in> set xs
                then read_square flat_data (k0 + 3 + 3 * pos xs rc) (squares ?b rc)
                else squares ?b rc)\<rparr>)"
    by (rule Cons.IH [OF d])
  finally have F: "fold (\<lambda>rc (k, board). (k + 3, board\<lparr>squares := (squares board)(rc := read_square flat_data k (squares board rc))\<rparr>))
     (x # xs) (k0, b)
     = (k0 + 3 + 3 * length xs,
      ?b\<lparr>squares := (\<lambda>rc. if rc \<in> set xs
                then read_square flat_data (k0 + 3 + 3 * pos xs rc) (squares ?b rc)
                else squares ?b rc)\<rparr>)" .
  have len: "k0 + 3 + 3 * length xs = k0 + 3 * length (x # xs)" by simp
  have over: "\<And>f. ?b\<lparr>squares := f\<rparr> = b\<lparr>squares := f\<rparr>" by simp
  show ?case by (simp only: F sq len over)
qed

lemma deserialize_board_squares:
  "deserialize_board flat_data board0 =
     board0\<lparr>squares := (\<lambda>rc. if rc \<in> set (List.product [0 .. flat_data 0 - 1] [0 .. flat_data 1 - 1])
                 then read_square flat_data
                        (2 + 3 * pos (List.product [0 .. flat_data 0 - 1] [0 .. flat_data 1 - 1]) rc)
                        (squares board0 rc)
                 else squares board0 rc)\<rparr>"
proof -
  have d: "distinct (List.product [0 .. flat_data 0 - 1] [0 .. flat_data 1 - 1])"
    by (simp add: distinct_product)
  have step: "(\<lambda>rc (k, board).
                      let sq0 = squares board rc;
                          pt = flat_data (k + 1);
                          p = flat_data (k + 2);
                          sq1 = sq0\<lparr>terrain := flat_data k\<rparr>;
                          sq2 = (if pt \<noteq> NO_PIECE \<and> 0 \<le> pt \<and> pt < NUM_PIECE_TYPES
                                 then sq1\<lparr>piece := \<lparr>ptype = pt, player = p,
                                                     rank = rank (PIECE_INFO ! nat pt),
                                                     pvalue = pvalue (PIECE_INFO ! nat pt)\<rparr>\<rparr>
                                 else sq1\<lparr>piece := (piece sq1)\<lparr>ptype := NO_PIECE\<rparr>\<rparr>)
                      in (k + 3, board\<lparr>squares := (squares board)(rc := sq2)\<rparr>))
     = (\<lambda>rc (k, board). (k + 3, board\<lparr>squares := (squares board)(rc := read_square flat_data k (squares board rc))\<rparr>))"
    by (simp add: fun_eq_iff read_square_def Let_def)
  show ?thesis
    unfolding deserialize_board_def Let_def [of "flat_data 0"] Let_def [of "flat_data 1"] step
      read_fold [OF d] by simp
qed

declare deserialize_board_squares [code]



end
